theory Spec2Isabelle
  imports Complex_Main "HOL-Library.Log_Nat" "HOL-Library.Sublist" "HOL-Library.Char_ord"
    "HOL-Library.List_Lexorder"
begin

section \<open>Python floats: IEEE 754 double precision\<close>

text \<open>
  The prices, multipliers, quantiles and bounds of the program are Python floats
  (numpy float64 in the data frame). A float is modelled by its exact value: a rational
  number, one of the two infinities, or NaN. The two zeros are one value (the program
  never divides by a price and never prints a sign of zero). Every operation computes
  the exact rational result and rounds it to the nearest double, ties to even, with
  gradual underflow below \<open>2 powi (- 1022)\<close> and overflow to infinity from \<open>2 ^ 1024\<close>.
\<close>

datatype fl64 = Fin rat | PosInf | NegInf | NaN

definition ilog2 :: "rat \<Rightarrow> int" where
  \<comment> \<open>for \<open>0 < x\<close>: the exponent \<open>k\<close> with \<open>2 powi k \<le> x < 2 powi (k + 1)\<close>\<close>
  "ilog2 x = (case quotient_of x of (p, q) \<Rightarrow>
     (let k = bitlen p - bitlen q in if 2 powi k \<le> x then k else k - 1))"

definition round_half_even :: "rat \<Rightarrow> int" where
  "round_half_even x = (let n = \<lfloor>x\<rfloor>; r = x - of_int n in
     if r < 1 / 2 then n else if 1 / 2 < r then n + 1 else if even n then n else n + 1)"

definition round_to_double :: "rat \<Rightarrow> rat" where
  \<comment> \<open>53 significant bits; the spacing never falls below \<open>2 powi (- 1074)\<close>\<close>
  "round_to_double x = (if x = 0 then 0 else
     (let e = max (ilog2 \<bar>x\<bar> - 52) (- 1074)
      in of_int (round_half_even (x / 2 powi e)) * 2 powi e))"

definition to_double :: "rat \<Rightarrow> fl64" where
  \<comment> \<open>a rounded magnitude of \<open>2 ^ 1024\<close> or more overflows\<close>
  "to_double x = (let v = round_to_double x in
     if v = 0 then Fin 0
     else if 1024 \<le> ilog2 \<bar>v\<bar> then (if 0 < v then PosInf else NegInf)
     else Fin v)"

fun fl_sign :: "fl64 \<Rightarrow> int" where
  "fl_sign (Fin a) = (if a = 0 then 0 else if 0 < a then 1 else - 1)"
| "fl_sign PosInf = 1"
| "fl_sign NegInf = - 1"
| "fl_sign NaN = 0"

fun fl_neg :: "fl64 \<Rightarrow> fl64" where
  "fl_neg (Fin a) = Fin (- a)"
| "fl_neg PosInf = NegInf"
| "fl_neg NegInf = PosInf"
| "fl_neg NaN = NaN"

fun fl_abs :: "fl64 \<Rightarrow> fl64" where
  "fl_abs (Fin a) = Fin \<bar>a\<bar>"
| "fl_abs PosInf = PosInf"
| "fl_abs NegInf = PosInf"
| "fl_abs NaN = NaN"

fun fl_mul :: "fl64 \<Rightarrow> fl64 \<Rightarrow> fl64" where
  "fl_mul (Fin a) (Fin b) = to_double (a * b)"
| "fl_mul x y =
     (if x = NaN \<or> y = NaN \<or> fl_sign x * fl_sign y = 0 then NaN
      else if 0 < fl_sign x * fl_sign y then PosInf else NegInf)"

fun fl_add :: "fl64 \<Rightarrow> fl64 \<Rightarrow> fl64" where
  "fl_add (Fin a) (Fin b) = to_double (a + b)"
| "fl_add NaN y = NaN"
| "fl_add x NaN = NaN"
| "fl_add PosInf NegInf = NaN"
| "fl_add NegInf PosInf = NaN"
| "fl_add PosInf y = PosInf"
| "fl_add NegInf y = NegInf"
| "fl_add (Fin a) y = y"

definition fl_sub :: "fl64 \<Rightarrow> fl64 \<Rightarrow> fl64" where
  "fl_sub x y = fl_add x (fl_neg y)"

fun fl_less :: "fl64 \<Rightarrow> fl64 \<Rightarrow> bool" where
  "fl_less (Fin a) (Fin b) = (a < b)"
| "fl_less NaN y = False"
| "fl_less x NaN = False"
| "fl_less x NegInf = False"
| "fl_less PosInf y = False"
| "fl_less NegInf y = True"
| "fl_less (Fin a) PosInf = True"

fun fl_le :: "fl64 \<Rightarrow> fl64 \<Rightarrow> bool" where
  "fl_le (Fin a) (Fin b) = (a \<le> b)"
| "fl_le NaN y = False"
| "fl_le x NaN = False"
| "fl_le NegInf y = True"
| "fl_le x PosInf = True"
| "fl_le x NegInf = False"
| "fl_le PosInf y = False"

definition py_round :: "fl64 \<Rightarrow> nat \<Rightarrow> fl64" where
  \<comment> \<open>\<open>round(x, n)\<close> of a float, \<open>n\<close> small: the exact value of \<open>x\<close> is rounded to
      \<open>n\<close> decimals, ties to even, and the decimal is read back as a double; an
      infinity or NaN is returned as it is\<close>
  "py_round x n = (case x of
     Fin a \<Rightarrow> to_double (of_int (round_half_even (a * 10 ^ n)) / 10 ^ n)
   | _ \<Rightarrow> x)"

definition is_double :: "fl64 \<Rightarrow> bool" where
  \<comment> \<open>the value is one a double can hold\<close>
  "is_double x = (case x of Fin a \<Rightarrow> to_double a = Fin a | _ \<Rightarrow> True)"

section \<open>Python values\<close>

datatype error = TypeError | ValueError | KeyError | OverflowError | AttributeError | LibraryError

datatype pyval =
    PNone
  | PBool bool
  | PInt int
  | PFloat fl64
  | PStr string
  | PList "pyval list"
  | PDict "(string \<times> pyval) list"

definition bind_err :: "error + 'a \<Rightarrow> ('a \<Rightarrow> error + 'b) \<Rightarrow> error + 'b" where
  "bind_err m f = (case m of Inl e \<Rightarrow> Inl e | Inr x \<Rightarrow> f x)"

definition features_get :: "(string \<rightharpoonup> pyval) \<Rightarrow> string \<Rightarrow> pyval \<Rightarrow> pyval" where
  \<comment> \<open>\<open>features.get(key, default)\<close>\<close>
  "features_get features k d = (case features k of None \<Rightarrow> d | Some v \<Rightarrow> v)"

fun hashable :: "pyval \<Rightarrow> bool" where
  "hashable (PList xs) = False"
| "hashable (PDict kvs) = False"
| "hashable v = True"

definition table_get :: "(string \<times> fl64) list \<Rightarrow> pyval \<Rightarrow> fl64 \<Rightarrow> error + fl64" where
  \<comment> \<open>\<open>table.get(key, default)\<close> on a dict literal whose keys are strings: a list or a
      dict as key raises TypeError (unhashable), any other key that is not one of the
      strings gives the default\<close>
  "table_get table k d =
     (if \<not> hashable k then Inl TypeError
      else case k of
        PStr s \<Rightarrow> (case map_of table s of None \<Rightarrow> Inr d | Some v \<Rightarrow> Inr v)
      | _ \<Rightarrow> Inr d)"

fun is_number :: "pyval \<Rightarrow> bool" where
  "is_number (PBool b) = True"
| "is_number (PInt n) = True"
| "is_number (PFloat x) = True"
| "is_number v = False"

fun py_greater :: "pyval \<Rightarrow> int \<Rightarrow> error + bool" where
  \<comment> \<open>\<open>v > k\<close> for an int literal \<open>k\<close>; True and False count as 1 and 0\<close>
  "py_greater (PInt n) k = Inr (k < n)"
| "py_greater (PFloat x) k = Inr (fl_less (Fin (of_int k)) x)"
| "py_greater (PBool b) k = Inr (k < (if b then 1 else 0))"
| "py_greater v k = Inl TypeError"

section \<open>api/predict.py: the fallback price\<close>

definition base_prices :: "(string \<times> fl64) list" where
  "base_prices =
     [(''Wheat'', to_double 45), (''Rice'', to_double 65), (''Corn'', to_double 35),
      (''Pulses'', to_double 85), (''Vegetables'', to_double 32), (''Fruits'', to_double 55),
      (''Sugarcane'', to_double 40), (''Cotton'', to_double 60), (''Soybean'', to_double 50)]"

definition quality_multiplier :: "(string \<times> fl64) list" where
  "quality_multiplier =
     [(''Premium'', to_double (12 / 10)), (''Grade_A'', to_double 1),
      (''Grade_B'', to_double (8 / 10)), (''Grade_C'', to_double (6 / 10))]"

definition region_multiplier :: "(string \<times> fl64) list" where
  "region_multiplier =
     [(''North'', to_double 1), (''South'', to_double (105 / 100)),
      (''East'', to_double (95 / 100)), (''West'', to_double (102 / 100))]"

definition season_multiplier :: "(string \<times> fl64) list" where
  "season_multiplier =
     [(''Winter'', to_double 1), (''Spring'', to_double (11 / 10)),
      (''Summer'', to_double (95 / 100)), (''Autumn'', to_double (105 / 100))]"

definition listed_price :: "(string \<rightharpoonup> pyval) \<Rightarrow> error + fl64" where
  \<comment> \<open>lines 20 to 57: the price before the bulk discount\<close>
  "listed_price features =
     (let crop_type = features_get features ''crop_type'' (PStr ''Wheat'');
          quality = features_get features ''quality'' (PStr ''Grade_A'')
      in bind_err (table_get base_prices crop_type (to_double 40)) (\<lambda>base_price.
         let region = features_get features ''region'' (PStr ''North'');
             season = features_get features ''season'' (PStr ''Winter'');
             price = base_price
         in bind_err (table_get quality_multiplier quality (to_double 1)) (\<lambda>q.
            let price = fl_mul price q
            in bind_err (table_get region_multiplier region (to_double 1)) (\<lambda>r.
               let price = fl_mul price r
               in bind_err (table_get season_multiplier season (to_double 1)) (\<lambda>s.
                  Inr (fl_mul price s))))))"

definition get_fallback_prediction :: "(string \<rightharpoonup> pyval) \<Rightarrow> error + fl64" where
  "get_fallback_prediction features =
     (let quantity = features_get features ''quantity_kg'' (PInt 1000)
      in bind_err (listed_price features) (\<lambda>price.
         bind_err (py_greater quantity 5000) (\<lambda>large.
           if large then Inr (py_round (fl_mul price (to_double (9 / 10))) 2)
           else bind_err (py_greater quantity 2000) (\<lambda>medium.
             if medium then Inr (py_round (fl_mul price (to_double (95 / 100))) 2)
             else Inr (py_round price 2)))))"

section \<open>api/predict.py: the request handler\<close>

text \<open>
  The body of a request is the value \<open>request.get_json()\<close> returned: any JSON value.
  A JSON object is an association list read by its first entry for a key. What the
  handler takes from its surroundings is a parameter: the builtin \<open>float\<close> on a
  string (\<open>str_to_float\<close>, None where it raises ValueError), the clock
  (\<open>now_year\<close>, \<open>now_month\<close>), the trained model (\<open>predictor\<close>) and whether it
  is loaded.
\<close>

fun truthy :: "pyval \<Rightarrow> bool" where
  "truthy PNone = False"
| "truthy (PBool b) = b"
| "truthy (PInt n) = (n \<noteq> 0)"
| "truthy (PFloat x) = (x \<noteq> Fin 0)"
| "truthy (PStr s) = (s \<noteq> [])"
| "truthy (PList xs) = (xs \<noteq> [])"
| "truthy (PDict kvs) = (kvs \<noteq> [])"

fun py_in :: "string \<Rightarrow> pyval \<Rightarrow> error + bool" where
  \<comment> \<open>\<open>field in data\<close>: a key of a dict, an element of a list, a substring of a string;
      any other value is not iterable\<close>
  "py_in field (PDict kvs) = Inr (field \<in> set (map fst kvs))"
| "py_in field (PList xs) = Inr (PStr field \<in> set xs)"
| "py_in field (PStr s) = Inr (sublist field s)"
| "py_in field v = Inl TypeError"

fun py_getitem :: "pyval \<Rightarrow> string \<Rightarrow> error + pyval" where
  \<comment> \<open>\<open>data[key]\<close> for a string key\<close>
  "py_getitem (PDict kvs) k = (case map_of kvs k of None \<Rightarrow> Inl KeyError | Some v \<Rightarrow> Inr v)"
| "py_getitem v k = Inl TypeError"

fun py_get :: "pyval \<Rightarrow> string \<Rightarrow> pyval \<Rightarrow> error + pyval" where
  \<comment> \<open>\<open>data.get(key, default)\<close>: only a dict has the method\<close>
  "py_get (PDict kvs) k d = (case map_of kvs k of None \<Rightarrow> Inr d | Some v \<Rightarrow> Inr v)"
| "py_get v k d = Inl AttributeError"

fun py_float :: "(string \<Rightarrow> fl64 option) \<Rightarrow> pyval \<Rightarrow> error + fl64" where
  \<comment> \<open>the builtin \<open>float\<close>: an int too large for a double raises OverflowError\<close>
  "py_float str_to_float (PFloat x) = Inr x"
| "py_float str_to_float (PInt n) =
     (case to_double (of_int n) of Fin a \<Rightarrow> Inr (Fin a) | _ \<Rightarrow> Inl OverflowError)"
| "py_float str_to_float (PBool b) = Inr (Fin (if b then 1 else 0))"
| "py_float str_to_float (PStr s) =
     (case str_to_float s of None \<Rightarrow> Inl ValueError | Some x \<Rightarrow> Inr x)"
| "py_float str_to_float v = Inl TypeError"

datatype message =
    NoDataProvided
  | MissingRequiredFields "string list"
  | QuantityMustBePositive
  | QuantityMustBeNumber
  | Valid
  | Raised error

definition required_fields :: "string list" where
  "required_fields = [''crop_type'', ''region'', ''quality'', ''quantity_kg'']"

fun collect_missing :: "string list \<Rightarrow> pyval \<Rightarrow> error + string list" where
  \<comment> \<open>\<open>[field for field in fields if field not in data]\<close>\<close>
  "collect_missing [] data = Inr []"
| "collect_missing (field # fields) data =
     bind_err (py_in field data) (\<lambda>present.
     bind_err (collect_missing fields data) (\<lambda>others.
       Inr (if present then others else field # others)))"

definition validate_input :: "(string \<Rightarrow> fl64 option) \<Rightarrow> pyval \<Rightarrow> error + bool \<times> message" where
  \<comment> \<open>the except clause catches ValueError and TypeError only\<close>
  "validate_input str_to_float data =
     bind_err (collect_missing required_fields data) (\<lambda>missing_fields.
       if missing_fields \<noteq> [] then Inr (False, MissingRequiredFields missing_fields)
       else
         (case bind_err (py_getitem data ''quantity_kg'') (py_float str_to_float) of
            Inr q \<Rightarrow>
              if fl_le q (Fin 0) then Inr (False, QuantityMustBePositive)
              else Inr (True, Valid)
          | Inl ValueError \<Rightarrow> Inr (False, QuantityMustBeNumber)
          | Inl TypeError \<Rightarrow> Inr (False, QuantityMustBeNumber)
          | Inl e \<Rightarrow> Inl e))"

definition get_season_from_month :: "int \<Rightarrow> string" where
  "get_season_from_month month =
     (if month \<in> set [12, 1, 2] then ''Winter''
      else if month \<in> set [3, 4, 5] then ''Spring''
      else if month \<in> set [6, 7, 8] then ''Summer''
      else if month \<in> set [9, 10, 11] then ''Autumn''
      else ''Winter'')"

definition prepare_features ::
  "(string \<Rightarrow> fl64 option) \<Rightarrow> int \<Rightarrow> int \<Rightarrow> pyval \<Rightarrow> error + (string \<rightharpoonup> pyval)" where
  "prepare_features str_to_float now_year now_month data =
     bind_err (py_get data ''crop_type'' PNone) (\<lambda>crop_type.
     bind_err (py_get data ''region'' PNone) (\<lambda>region.
     bind_err (py_get data ''quality'' PNone) (\<lambda>quality.
     bind_err (py_get data ''quantity_kg'' (PInt 1000)) (\<lambda>quantity.
     bind_err (py_float str_to_float quantity) (\<lambda>quantity_kg.
     bind_err (py_get data ''season'' (PStr (get_season_from_month now_month))) (\<lambda>season.
     bind_err (py_get data ''weather'' (PStr ''Normal'')) (\<lambda>weather.
     bind_err (py_get data ''market_demand'' (PStr ''Medium'')) (\<lambda>market_demand.
     bind_err (py_get data ''year'' (PInt now_year)) (\<lambda>year.
     bind_err (py_get data ''month'' (PInt now_month)) (\<lambda>month.
       Inr (map_of
         [(''crop_type'', crop_type), (''region'', region), (''quality'', quality),
          (''quantity_kg'', PFloat quantity_kg), (''season'', season),
          (''weather'', weather), (''market_demand'', market_demand),
          (''year'', year), (''month'', month)])))))))))))"

datatype payload =
    ErrorBody message
  | Prediction fl64 fl64 string fl64
    \<comment> \<open>predicted_price, confidence, method, total_value\<close>

record response =
  status :: nat
  success :: bool
  body :: payload

definition predict_or_fallback ::
  "((string \<rightharpoonup> pyval) \<Rightarrow> error + fl64) \<Rightarrow> bool \<Rightarrow> (string \<rightharpoonup> pyval)
     \<Rightarrow> error + fl64 \<times> fl64 \<times> string" where
  \<comment> \<open>lines 142 to 156: the model when it is loaded and does not raise, the fallback
      otherwise\<close>
  "predict_or_fallback predictor model_loaded features =
     (if model_loaded then
        (case predictor features of
           Inr predicted_price \<Rightarrow> Inr (predicted_price, to_double (85 / 100), ''ml_model'')
         | Inl e \<Rightarrow>
             bind_err (get_fallback_prediction features) (\<lambda>predicted_price.
               Inr (predicted_price, to_double (65 / 100), ''fallback'')))
      else
        bind_err (get_fallback_prediction features) (\<lambda>predicted_price.
          Inr (predicted_price, to_double (65 / 100), ''fallback'')))"

definition predict_price_route ::
  "(string \<Rightarrow> fl64 option) \<Rightarrow> int \<Rightarrow> int \<Rightarrow> ((string \<rightharpoonup> pyval) \<Rightarrow> error + fl64) \<Rightarrow> bool
     \<Rightarrow> pyval \<Rightarrow> response" where
  "predict_price_route str_to_float now_year now_month predictor model_loaded data =
     (if \<not> truthy data then
        \<lparr>status = 400, success = False, body = ErrorBody NoDataProvided\<rparr>
      else
        (case validate_input str_to_float data of
           Inl e \<Rightarrow> \<lparr>status = 500, success = False, body = ErrorBody (Raised e)\<rparr>
         | Inr (is_valid, message) \<Rightarrow>
             if \<not> is_valid then \<lparr>status = 400, success = False, body = ErrorBody message\<rparr>
             else
               (case
                  bind_err (prepare_features str_to_float now_year now_month data) (\<lambda>features.
                  bind_err (predict_or_fallback predictor model_loaded features)
                    (\<lambda>(predicted_price, confidence, method).
                  bind_err (py_float str_to_float (features_get features ''quantity_kg'' PNone))
                    (\<lambda>quantity_kg.
                     let total_value = fl_mul predicted_price quantity_kg
                     in Inr (Prediction (py_round predicted_price 2) confidence method
                               (py_round total_value 2)))))
                of
                  Inl e \<Rightarrow> \<lparr>status = 500, success = False, body = ErrorBody (Raised e)\<rparr>
                | Inr p \<Rightarrow> \<lparr>status = 200, success = True, body = p\<rparr>)))"

section \<open>data/validate_data.py: the data frame and the library\<close>

text \<open>
  A data frame as \<open>read_csv\<close> returns it: the column names and the rows, every row
  with one cell for each column. A cell is a number or a string; pandas marks a
  missing value by NaN, in a column of strings too. The rows keep their order, and
  \<open>reset_index(drop=True)\<close> only renumbers them, so the index is not stored.
  \<open>fillna(..., inplace=True)\<close> on a selected column is taken to update the frame, as it
  does in pandas without copy-on-write.

  The statistics of pandas and scipy are parameters of the model (the record
  \<open>pandas\<close>): \<open>median\<close> and \<open>quantile\<close> of a column, the list \<open>mode\<close> returns and
  \<open>zscore\<close>. Each theorem below holds for whatever these functions compute.
\<close>

datatype cell = Num fl64 | Str string

record dataframe =
  columns :: "string list"
  rows :: "cell list list"

record pandas =
  median :: "cell list \<Rightarrow> error + fl64"
  mode :: "cell list \<Rightarrow> cell list"
  quantile :: "cell list \<Rightarrow> rat \<Rightarrow> error + fl64"
  zscore :: "cell list \<Rightarrow> error + fl64 list"

record check =
  name :: string
  passed :: bool

record report =
  checks :: "check list"
  issues_found :: nat
  issues_fixed :: nat

record validator =
  df :: dataframe
  quality_report :: report

definition isnull :: "cell \<Rightarrow> bool" where
  "isnull c = (c = Num NaN)"

fun col_index :: "string list \<Rightarrow> string \<Rightarrow> nat option" where
  "col_index [] c = None"
| "col_index (x # xs) c = (if x = c then Some 0 else map_option Suc (col_index xs c))"

definition column :: "dataframe \<Rightarrow> string \<Rightarrow> error + cell list" where
  \<comment> \<open>\<open>df[c]\<close>\<close>
  "column d c = (case col_index (columns d) c of
     None \<Rightarrow> Inl KeyError
   | Some i \<Rightarrow> Inr (map (\<lambda>r. r ! i) (rows d)))"

definition fillna :: "dataframe \<Rightarrow> string \<Rightarrow> cell \<Rightarrow> dataframe" where
  \<comment> \<open>\<open>df[c].fillna(v, inplace=True)\<close>\<close>
  "fillna d c v = (case col_index (columns d) c of
     None \<Rightarrow> d
   | Some i \<Rightarrow> d\<lparr>rows := map (\<lambda>r. if isnull (r ! i) then r[i := v] else r) (rows d)\<rparr>)"

definition select_rows :: "bool list \<Rightarrow> dataframe \<Rightarrow> dataframe" where
  \<comment> \<open>\<open>df[mask].reset_index(drop=True)\<close>\<close>
  "select_rows keep d = d\<lparr>rows := map snd (filter fst (zip keep (rows d)))\<rparr>"

definition count_true :: "bool list \<Rightarrow> nat" where
  \<comment> \<open>\<open>mask.sum()\<close>\<close>
  "count_true bs = length (filter (\<lambda>b. b) bs)"

fun cell_num :: "cell \<Rightarrow> error + fl64" where
  \<comment> \<open>a string in a comparison with a number raises TypeError\<close>
  "cell_num (Num x) = Inr x"
| "cell_num (Str s) = Inl TypeError"

fun map_err :: "('a \<Rightarrow> error + 'b) \<Rightarrow> 'a list \<Rightarrow> error + 'b list" where
  "map_err f [] = Inr []"
| "map_err f (x # xs) = bind_err (f x) (\<lambda>y. bind_err (map_err f xs) (\<lambda>ys. Inr (y # ys)))"

definition add_check :: "check \<Rightarrow> validator \<Rightarrow> validator" where
  \<comment> \<open>\<open>self.quality_report['checks'].append(check)\<close>\<close>
  "add_check c v =
     v\<lparr>quality_report := (quality_report v)\<lparr>checks := checks (quality_report v) @ [c]\<rparr>\<rparr>"

definition found_issue :: "validator \<Rightarrow> validator" where
  \<comment> \<open>\<open>self.quality_report['issues_found'] += 1\<close>\<close>
  "found_issue v =
     v\<lparr>quality_report := (quality_report v)\<lparr>issues_found := issues_found (quality_report v) + 1\<rparr>\<rparr>"

definition fixed_issue :: "validator \<Rightarrow> validator" where
  \<comment> \<open>\<open>self.quality_report['issues_fixed'] += 1\<close>\<close>
  "fixed_issue v =
     v\<lparr>quality_report := (quality_report v)\<lparr>issues_fixed := issues_fixed (quality_report v) + 1\<rparr>\<rparr>"

section \<open>data/validate_data.py: the checks\<close>

text \<open>
  The state of a \<open>DataValidator\<close> is its frame and its quality report. Of a check the
  report keeps the name and the \<open>passed\<close> flag; the \<open>details\<close> (formatted text) are
  left out. A check that raises leaves \<open>validate\<close> with the exception: \<open>Inl\<close>.
\<close>

definition missing_counts :: "dataframe \<Rightarrow> (string \<times> nat) list" where
  \<comment> \<open>\<open>df.isnull().sum()\<close>\<close>
  "missing_counts d =
     map (\<lambda>(i, c). (c, length (filter (\<lambda>r. isnull (r ! i)) (rows d))))
       (enumerate 0 (columns d))"

definition impute :: "pandas \<Rightarrow> string \<Rightarrow> dataframe \<Rightarrow> error + dataframe" where
  \<comment> \<open>lines 49 to 54; \<open>mode()[0]\<close> of an empty result raises KeyError\<close>
  "impute pd col d =
     bind_err (column d col) (\<lambda>vals.
       if col = ''market_price'' then
         bind_err (median pd vals) (\<lambda>m. Inr (fillna d col (Num m)))
       else if col \<in> set [''weather'', ''market_demand'', ''season''] then
         Inr (fillna d col (Str ''Unknown''))
       else
         (case mode pd vals of
            [] \<Rightarrow> Inl KeyError
          | m # ms \<Rightarrow> Inr (fillna d col m)))"

fun fill_missing :: "pandas \<Rightarrow> string list \<Rightarrow> validator \<Rightarrow> error + validator" where
  \<comment> \<open>the loop of lines 45 to 55 over the columns that have missing values\<close>
  "fill_missing pd [] v = Inr v"
| "fill_missing pd (col # cols) v =
     bind_err (impute pd col (df v)) (\<lambda>d. fill_missing pd cols (fixed_issue (v\<lparr>df := d\<rparr>)))"

definition check_missing_values :: "pandas \<Rightarrow> validator \<Rightarrow> error + validator" where
  "check_missing_values pd v =
     (let missing = missing_counts (df v) in
      if 0 < sum_list (map snd missing) then
        bind_err (fill_missing pd (map fst (filter (\<lambda>(col, count). 0 < count) missing))
                    (found_issue v))
          (\<lambda>v'. Inr (add_check \<lparr>name = ''Missing Values'', passed = False\<rparr> v'))
      else Inr (add_check \<lparr>name = ''Missing Values'', passed = True\<rparr> v))"

fun duplicated_from :: "'a list \<Rightarrow> 'a list \<Rightarrow> bool list" where
  \<comment> \<open>a row is a duplicate when an equal row stands before it\<close>
  "duplicated_from seen [] = []"
| "duplicated_from seen (r # rs) = (r \<in> set seen) # duplicated_from (r # seen) rs"

definition duplicated :: "dataframe \<Rightarrow> bool list" where
  "duplicated d = duplicated_from [] (rows d)"

definition check_duplicates :: "validator \<Rightarrow> validator" where
  "check_duplicates v =
     (let duplicates = duplicated (df v) in
      if 0 < count_true duplicates then
        add_check \<lparr>name = ''Duplicate Records'', passed = False\<rparr>
          (fixed_issue ((found_issue v)\<lparr>df := select_rows (map Not duplicates) (df v)\<rparr>))
      else add_check \<lparr>name = ''Duplicate Records'', passed = True\<rparr> v)"

definition price_outliers :: "pandas \<Rightarrow> string \<Rightarrow> fl64 \<Rightarrow> dataframe \<Rightarrow> error + bool list" where
  \<comment> \<open>lines 85 to 94: the mask \<open>outliers\<close>\<close>
  "price_outliers pd method threshold d =
     (if method = ''iqr'' then
        bind_err (column d ''market_price'') (\<lambda>prices.
        bind_err (quantile pd prices (1 / 4)) (\<lambda>Q1.
        bind_err (quantile pd prices (3 / 4)) (\<lambda>Q3.
          let IQR = fl_sub Q3 Q1;
              lower_bound = fl_sub Q1 (fl_mul threshold IQR);
              upper_bound = fl_add Q3 (fl_mul threshold IQR)
          in bind_err (map_err cell_num prices) (\<lambda>ps.
               Inr (map (\<lambda>p. fl_less p lower_bound \<or> fl_less upper_bound p) ps)))))
      else
        bind_err (column d ''market_price'') (\<lambda>prices.
        bind_err (zscore pd prices) (\<lambda>z_scores.
          Inr (map (\<lambda>z. fl_less threshold (fl_abs z)) z_scores))))"

definition check_price_outliers :: "pandas \<Rightarrow> string \<Rightarrow> fl64 \<Rightarrow> validator \<Rightarrow> error + validator" where
  "check_price_outliers pd method threshold v =
     bind_err (price_outliers pd method threshold (df v)) (\<lambda>outliers.
       if 0 < count_true outliers then
         Inr (add_check \<lparr>name = ''Price Outliers'', passed = False\<rparr>
               (fixed_issue ((found_issue v)\<lparr>df := select_rows (map Not outliers) (df v)\<rparr>)))
       else Inr (add_check \<lparr>name = ''Price Outliers'', passed = True\<rparr> v))"

definition check_quantity_validity :: "validator \<Rightarrow> error + validator" where
  "check_quantity_validity v =
     bind_err (column (df v) ''quantity_kg'') (\<lambda>quantities.
     bind_err (map_err cell_num quantities) (\<lambda>qs.
       let invalid = map (\<lambda>q. fl_le q (Fin 0) \<or> fl_less (Fin 100000) q) qs in
       if 0 < count_true invalid then
         Inr (add_check \<lparr>name = ''Quantity Validity'', passed = False\<rparr>
               (fixed_issue ((found_issue v)\<lparr>df := select_rows (map Not invalid) (df v)\<rparr>)))
       else Inr (add_check \<lparr>name = ''Quantity Validity'', passed = True\<rparr> v)))"

definition valid_values :: "(string \<times> string list) list" where
  "valid_values =
     [(''crop_type'', [''Wheat'', ''Rice'', ''Corn'', ''Pulses'', ''Sugarcane'', ''Cotton'',
                       ''Soybean'', ''Vegetables'', ''Fruits'', ''Spices'']),
      (''region'', [''North'', ''South'', ''East'', ''West'', ''Central'', ''Northeast'']),
      (''quality'', [''Premium'', ''Grade_A'', ''Grade_B'', ''Grade_C'']),
      (''season'', [''Winter'', ''Spring'', ''Summer'', ''Autumn'', ''Monsoon'']),
      (''market_demand'', [''Very High'', ''High'', ''Medium'', ''Low'', ''Very Low''])]"

fun isin :: "cell \<Rightarrow> string list \<Rightarrow> bool" where
  "isin (Str s) valid_list = (s \<in> set valid_list)"
| "isin (Num x) valid_list = False"

fun drop_invalid :: "(string \<times> string list) list \<Rightarrow> bool \<times> validator \<Rightarrow> bool \<times> validator" where
  \<comment> \<open>the loop of lines 147 to 157, with the \<open>passed\<close> flag of the check\<close>
  "drop_invalid [] (ok, v) = (ok, v)"
| "drop_invalid ((col, valid_list) # rest) (ok, v) =
     (case col_index (columns (df v)) col of
        None \<Rightarrow> drop_invalid rest (ok, v)
      | Some i \<Rightarrow>
          (let invalid = map (\<lambda>r. \<not> isin (r ! i) valid_list) (rows (df v)) in
           if 0 < count_true invalid then
             drop_invalid rest
               (False, fixed_issue ((found_issue v)\<lparr>df := select_rows (map Not invalid) (df v)\<rparr>))
           else drop_invalid rest (ok, v)))"

definition check_categorical_values :: "validator \<Rightarrow> validator" where
  "check_categorical_values v =
     (case drop_invalid valid_values (True, v) of
        (ok, v') \<Rightarrow> add_check \<lparr>name = ''Categorical Values'', passed = ok\<rparr> v')"

definition value_counts :: "cell list \<Rightarrow> nat list" where
  \<comment> \<open>the counts of the distinct values that are not missing\<close>
  "value_counts vals =
     (let present = filter (\<lambda>c. \<not> isnull c) vals
      in map (count_list present) (remdups present))"

definition check_data_distribution :: "validator \<Rightarrow> error + validator" where
  \<comment> \<open>the frame is only read; the smallest share of a region is a float\<close>
  "check_data_distribution v =
     bind_err (column (df v) ''crop_type'') (\<lambda>crops.
     bind_err (column (df v) ''region'') (\<lambda>regions.
       let region_dist = value_counts regions;
           min_region_pct =
             (if region_dist = [] then NaN
              else fl_mul (to_double (of_nat (Min (set region_dist))
                                       / of_nat (length (rows (df v))))) (to_double 100))
       in Inr (add_check
                \<lparr>name = ''Data Distribution'', passed = \<not> fl_less min_region_pct (to_double 5)\<rparr> v)))"

definition new_validator :: "dataframe \<Rightarrow> validator" where
  \<comment> \<open>\<open>__init__\<close> and a successful \<open>load_data\<close>\<close>
  "new_validator d =
     \<lparr>df = d, quality_report = \<lparr>checks = [], issues_found = 0, issues_fixed = 0\<rparr>\<rparr>"

definition run_checks :: "pandas \<Rightarrow> validator \<Rightarrow> error + validator" where
  \<comment> \<open>lines 237 to 242\<close>
  "run_checks pd v =
     bind_err (check_missing_values pd v) (\<lambda>v.
     let v = check_duplicates v in
     bind_err (check_quantity_validity v) (\<lambda>v.
     let v = check_categorical_values v in
     bind_err (check_price_outliers pd ''iqr'' (to_double (15 / 10)) v) (\<lambda>v.
     check_data_distribution v)))"

definition generate_statistics :: "validator \<Rightarrow> error + unit" where
  \<comment> \<open>the statistics themselves are not modelled, only the columns they read: a column
      the frame does not have raises KeyError\<close>
  "generate_statistics v =
     (if list_all (\<lambda>c. c \<in> set (columns (df v)))
           [''date'', ''market_price'', ''quantity_kg'', ''crop_type'', ''region'', ''quality'',
            ''season'']
      then Inr () else Inl KeyError)"

definition save_report :: "validator \<Rightarrow> error + unit" where
  \<comment> \<open>the report file is not modelled\<close>
  "save_report v = generate_statistics v"

definition validate :: "pandas \<Rightarrow> dataframe option \<Rightarrow> validator option \<times> (error + bool)" where
  \<comment> \<open>\<open>loaded\<close> is what \<open>read_csv\<close> gave, None when \<open>load_data\<close> failed. The first
      component of the result is the state whose frame \<open>to_csv\<close> wrote back to the file
      (None when nothing was written), the second what the call returned or raised.\<close>
  "validate pd loaded = (case loaded of
     None \<Rightarrow> (None, Inr False)
   | Some d \<Rightarrow>
       (case run_checks pd (new_validator d) of
          Inl e \<Rightarrow> (None, Inl e)
        | Inr v \<Rightarrow> (Some v, bind_err (save_report v) (\<lambda>u. Inr True))))"

section \<open>An instance of the library\<close>

text \<open>
  Modelled from the documentation of pandas (nothing of it is under the repository):
  \<open>median\<close> and \<open>quantile\<close> skip missing values and raise TypeError on a string;
  the quantile interpolates linearly between the two nearest ranks; \<open>mode\<close> returns
  the most frequent values that are not missing, in ascending order. The concrete
  examples below run on this instance; scipy's \<open>zscore\<close>, which \<open>validate\<close> never
  calls, is left out of it.
\<close>

fun fl_insert :: "fl64 \<Rightarrow> fl64 list \<Rightarrow> fl64 list" where
  "fl_insert x [] = [x]"
| "fl_insert x (y # ys) = (if fl_le x y then x # y # ys else y # fl_insert x ys)"

definition fl_sort :: "fl64 list \<Rightarrow> fl64 list" where
  "fl_sort xs = foldr fl_insert xs []"

definition present_numbers :: "cell list \<Rightarrow> error + fl64 list" where
  "present_numbers vals =
     bind_err (map_err cell_num vals) (\<lambda>xs. Inr (fl_sort (filter (\<lambda>x. x \<noteq> NaN) xs)))"

definition pd_median :: "cell list \<Rightarrow> error + fl64" where
  "pd_median vals =
     bind_err (present_numbers vals) (\<lambda>xs.
       let n = length xs in
       if n = 0 then Inr NaN
       else if odd n then Inr (xs ! (n div 2))
       else Inr (fl_mul (fl_add (xs ! (n div 2 - 1)) (xs ! (n div 2))) (to_double (1 / 2))))"

definition pd_quantile :: "cell list \<Rightarrow> rat \<Rightarrow> error + fl64" where
  "pd_quantile vals q =
     bind_err (present_numbers vals) (\<lambda>xs.
       let n = length xs in
       if n = 0 then Inr NaN
       else
         (let pos = q * of_nat (n - 1);
              lo = nat \<lfloor>pos\<rfloor>;
              hi = min (lo + 1) (n - 1);
              t = pos - of_int \<lfloor>pos\<rfloor>;
              diff = fl_sub (xs ! hi) (xs ! lo)
          in if t < 1 / 2 then Inr (fl_add (xs ! lo) (fl_mul diff (to_double t)))
             else Inr (fl_sub (xs ! hi) (fl_mul diff (to_double (1 - t))))))"

fun cell_le :: "cell \<Rightarrow> cell \<Rightarrow> bool" where
  "cell_le (Num x) (Num y) = fl_le x y"
| "cell_le (Str s) (Str t) = (s \<le> t)"
| "cell_le (Num x) (Str t) = True"
| "cell_le (Str s) (Num y) = False"

fun cell_insert :: "cell \<Rightarrow> cell list \<Rightarrow> cell list" where
  "cell_insert x [] = [x]"
| "cell_insert x (y # ys) = (if cell_le x y then x # y # ys else y # cell_insert x ys)"

definition pd_mode :: "cell list \<Rightarrow> cell list" where
  "pd_mode vals =
     (let present = filter (\<lambda>c. \<not> isnull c) vals;
          most = fold max (map (count_list present) present) 0
      in foldr cell_insert
           (filter (\<lambda>c. count_list present c = most) (remdups present)) [])"

definition pandas_model :: pandas where
  "pandas_model =
     \<lparr>median = pd_median, mode = pd_mode, quantile = pd_quantile,
      zscore = (\<lambda>vals. Inl LibraryError)\<rparr>"

section \<open>The claims in their own words\<close>

text \<open>
  The tables of the fallback price as the specification lists them, written out case
  by case, to be compared with the lookups of the code. The specification gives no
  table of base prices; the one below is read off the dict literal of the code.
\<close>

definition spec_base_price :: "pyval \<Rightarrow> fl64" where
  "spec_base_price crop_type =
     (if crop_type = PStr ''Wheat'' then to_double 45
      else if crop_type = PStr ''Rice'' then to_double 65
      else if crop_type = PStr ''Corn'' then to_double 35
      else if crop_type = PStr ''Pulses'' then to_double 85
      else if crop_type = PStr ''Vegetables'' then to_double 32
      else if crop_type = PStr ''Fruits'' then to_double 55
      else if crop_type = PStr ''Sugarcane'' then to_double 40
      else if crop_type = PStr ''Cotton'' then to_double 60
      else if crop_type = PStr ''Soybean'' then to_double 50
      else to_double 40)"

definition spec_quality_multiplier :: "pyval \<Rightarrow> fl64" where
  "spec_quality_multiplier quality =
     (if quality = PStr ''Premium'' then to_double (12 / 10)
      else if quality = PStr ''Grade_A'' then to_double 1
      else if quality = PStr ''Grade_B'' then to_double (8 / 10)
      else if quality = PStr ''Grade_C'' then to_double (6 / 10)
      else to_double 1)"

definition spec_region_multiplier :: "pyval \<Rightarrow> fl64" where
  "spec_region_multiplier region =
     (if region = PStr ''North'' then to_double 1
      else if region = PStr ''South'' then to_double (105 / 100)
      else if region = PStr ''East'' then to_double (95 / 100)
      else if region = PStr ''West'' then to_double (102 / 100)
      else to_double 1)"

definition spec_season_multiplier :: "pyval \<Rightarrow> fl64" where
  "spec_season_multiplier season =
     (if season = PStr ''Winter'' then to_double 1
      else if season = PStr ''Spring'' then to_double (11 / 10)
      else if season = PStr ''Summer'' then to_double (95 / 100)
      else if season = PStr ''Autumn'' then to_double (105 / 100)
      else to_double 1)"

fun number_value :: "pyval \<Rightarrow> fl64 option" where
  \<comment> \<open>the value of a Python number, exact for an int (True and False are 1 and 0)\<close>
  "number_value (PInt n) = Some (Fin (of_int n))"
| "number_value (PFloat x) = Some x"
| "number_value (PBool b) = Some (Fin (if b then 1 else 0))"
| "number_value v = None"

definition spec_bulk_discount :: "fl64 \<Rightarrow> fl64" where
  "spec_bulk_discount quantity_kg =
     (if fl_less (Fin 5000) quantity_kg then to_double (90 / 100)
      else if fl_less (Fin 2000) quantity_kg \<and> fl_le quantity_kg (Fin 5000)
        then to_double (95 / 100)
      else to_double 1)"

text \<open>Two requests for the examples.\<close>

definition rice_order :: "string \<rightharpoonup> pyval" where
  "rice_order = map_of
     [(''crop_type'', PStr ''Rice''), (''quality'', PStr ''Grade_C''),
      (''region'', PStr ''South''), (''season'', PStr ''Spring''),
      (''quantity_kg'', PFloat (Fin 6000)), (''weather'', PStr ''Rainy'')]"

definition wheat_order :: "string \<rightharpoonup> pyval" where
  "wheat_order = map_of [(''crop_type'', PStr ''Wheat''), (''quantity_kg'', PInt 5000)]"

text \<open>
  A request whose quantity is the JSON integer 1 followed by 400 zeros, and the four
  conditions under which the claim about the handler expects a rejection, for a body
  that is a JSON object.
\<close>

definition huge_quantity_body :: pyval where
  "huge_quantity_body = PDict
     [(''crop_type'', PStr ''Wheat''), (''region'', PStr ''North''),
      (''quality'', PStr ''Grade_A''), (''quantity_kg'', PInt (10 ^ 400))]"

definition spec_rejects :: "(string \<Rightarrow> fl64 option) \<Rightarrow> (string \<times> pyval) list \<Rightarrow> bool" where
  "spec_rejects str_to_float kvs =
     (kvs = []
      \<or> (\<exists>field \<in> set [''crop_type'', ''region'', ''quality'', ''quantity_kg''].
            map_of kvs field = None)
      \<or> (case map_of kvs ''quantity_kg'' of
            None \<Rightarrow> True
          | Some v \<Rightarrow>
              (case py_float str_to_float v of
                 Inl e \<Rightarrow> True
               | Inr q \<Rightarrow> fl_le q (Fin 0))))"

text \<open>
  The data checks as the specification words them: the number a cell holds, the range
  of a valid quantity, the vocabularies of the five categorical columns, the rule
  that fills a missing cell, and the first occurrences of the rows.
\<close>

fun cell_value :: "cell \<Rightarrow> fl64" where
  "cell_value (Num x) = x"
| "cell_value (Str s) = NaN"

definition wf_frame :: "dataframe \<Rightarrow> bool" where
  \<comment> \<open>what \<open>read_csv\<close> returns: distinct column names, one cell a column in each row\<close>
  "wf_frame d =
     (distinct (columns d) \<and> list_all (\<lambda>r. length r = length (columns d)) (rows d))"

definition numeric_column :: "dataframe \<Rightarrow> nat \<Rightarrow> bool" where
  "numeric_column d i = list_all (\<lambda>r. case r ! i of Num x \<Rightarrow> True | Str s \<Rightarrow> False) (rows d)"

definition spec_quantity_rejected :: "fl64 \<Rightarrow> bool" where
  "spec_quantity_rejected quantity_kg =
     (fl_le quantity_kg (Fin 0) \<or> fl_less (Fin 100000) quantity_kg)"

definition spec_price_outlier :: "fl64 \<Rightarrow> fl64 \<Rightarrow> fl64 \<Rightarrow> bool" where
  \<comment> \<open>strictly below \<open>Q1 - 1.5 * IQR\<close> or strictly above \<open>Q3 + 1.5 * IQR\<close>\<close>
  "spec_price_outlier Q1 Q3 market_price =
     (fl_less market_price (fl_sub Q1 (fl_mul (to_double (15 / 10)) (fl_sub Q3 Q1)))
      \<or> fl_less (fl_add Q3 (fl_mul (to_double (15 / 10)) (fl_sub Q3 Q1))) market_price)"

definition spec_checked_columns :: "string list" where
  "spec_checked_columns = [''crop_type'', ''region'', ''quality'', ''season'', ''market_demand'']"

definition spec_vocabulary :: "string \<Rightarrow> string list" where
  "spec_vocabulary col =
     (if col = ''crop_type'' then
        [''Wheat'', ''Rice'', ''Corn'', ''Pulses'', ''Sugarcane'', ''Cotton'', ''Soybean'',
         ''Vegetables'', ''Fruits'', ''Spices'']
      else if col = ''region'' then
        [''North'', ''South'', ''East'', ''West'', ''Central'', ''Northeast'']
      else if col = ''quality'' then [''Premium'', ''Grade_A'', ''Grade_B'', ''Grade_C'']
      else if col = ''season'' then [''Winter'', ''Spring'', ''Summer'', ''Autumn'', ''Monsoon'']
      else if col = ''market_demand'' then
        [''Very High'', ''High'', ''Medium'', ''Low'', ''Very Low'']
      else [])"

definition spec_row_in_vocabulary :: "string list \<Rightarrow> cell list \<Rightarrow> bool" where
  \<comment> \<open>every checked column that is present holds a value of its vocabulary\<close>
  "spec_row_in_vocabulary cols r =
     list_all (\<lambda>col. case col_index cols col of
                        None \<Rightarrow> True
                      | Some i \<Rightarrow> isin (r ! i) (spec_vocabulary col)) spec_checked_columns"

definition spec_fill_value :: "pandas \<Rightarrow> string \<Rightarrow> cell list \<Rightarrow> cell option" where
  \<comment> \<open>what a missing cell of column \<open>col\<close> becomes, None when the library call fails\<close>
  "spec_fill_value pd col vals =
     (if col = ''market_price'' then
        (case median pd vals of Inl e \<Rightarrow> None | Inr m \<Rightarrow> Some (Num m))
      else if col = ''weather'' \<or> col = ''market_demand'' \<or> col = ''season'' then
        Some (Str ''Unknown'')
      else (case mode pd vals of [] \<Rightarrow> None | m # ms \<Rightarrow> Some m))"

fun first_occurrences :: "'a list \<Rightarrow> 'a list \<Rightarrow> 'a list" where
  \<comment> \<open>the elements not seen before, in their order\<close>
  "first_occurrences seen [] = []"
| "first_occurrences seen (x # xs) =
     (if x \<in> set seen then first_occurrences seen xs
      else x # first_occurrences (x # seen) xs)"

text \<open>Frames for the examples.\<close>

definition quantity_frame :: dataframe where
  "quantity_frame =
     \<lparr>columns = [''crop_type'', ''quantity_kg''],
      rows = [[Str ''Wheat'', Num (Fin 100)], [Str ''Rice'', Num (Fin 0)],
              [Str ''Corn'', Num (Fin (- 5))], [Str ''Pulses'', Num (Fin 100000)],
              [Str ''Cotton'', Num (Fin 100001)], [Str ''Fruits'', Num NaN]]\<rparr>"

definition category_frame :: dataframe where
  "category_frame =
     \<lparr>columns = [''crop_type'', ''season'', ''weather''],
      rows = [[Str ''Wheat'', Str ''Winter'', Str ''Sunny''],
              [Str ''Barley'', Str ''Winter'', Str ''Sunny''],
              [Str ''Rice'', Str ''Unknown'', Str ''Rainy''],
              [Str ''Spices'', Str ''Monsoon'', Str ''Unknown''],
              [Str ''Corn'', Num NaN, Str ''Hot'']]\<rparr>"

definition price_frame :: dataframe where
  "price_frame =
     \<lparr>columns = [''crop_type'', ''market_price''],
      rows = [[Str ''Wheat'', Num (Fin 10)], [Str ''Rice'', Num (Fin 20)],
              [Str ''Corn'', Num (Fin 30)], [Str ''Pulses'', Num (Fin 40)],
              [Str ''Cotton'', Num (Fin 1000)]]\<rparr>"

text \<open>
  The frame after the missing-value step, cell by cell: a cell that is not missing
  stays, a missing one takes the fill value of its column. \<open>spec_imputed_columns\<close>
  fills the columns of a list only.
\<close>

definition spec_fill_cell :: "pandas \<Rightarrow> dataframe \<Rightarrow> nat \<Rightarrow> cell \<Rightarrow> cell" where
  "spec_fill_cell pd d i c =
     (if isnull c then
        (case spec_fill_value pd (columns d ! i) (map (\<lambda>r. r ! i) (rows d)) of
           None \<Rightarrow> c
         | Some x \<Rightarrow> x)
      else c)"

definition spec_imputed_columns :: "pandas \<Rightarrow> string list \<Rightarrow> dataframe \<Rightarrow> cell list list" where
  "spec_imputed_columns pd cs d =
     map (\<lambda>r. map (\<lambda>(i, c). if columns d ! i \<in> set cs then spec_fill_cell pd d i c else c)
                (enumerate 0 r)) (rows d)"

definition spec_imputed_row :: "pandas \<Rightarrow> dataframe \<Rightarrow> cell list \<Rightarrow> cell list" where
  "spec_imputed_row pd d r = map (\<lambda>(i, c). spec_fill_cell pd d i c) (enumerate 0 r)"

definition spec_imputed :: "pandas \<Rightarrow> dataframe \<Rightarrow> cell list list" where
  "spec_imputed pd d = map (spec_imputed_row pd d) (rows d)"


definition has_missing :: "dataframe \<Rightarrow> nat \<Rightarrow> bool" where
  "has_missing d i = (\<exists>r \<in> set (rows d). isnull (r ! i))"


text \<open>
  The order of the checks as the claim about \<open>validate\<close> lists them (the outlier check
  third), and a frame on which the order matters.
\<close>

definition claimed_run_checks :: "pandas \<Rightarrow> validator \<Rightarrow> error + validator" where
  "claimed_run_checks pd v =
     bind_err (check_missing_values pd v) (\<lambda>v.
     let v = check_duplicates v in
     bind_err (check_price_outliers pd ''iqr'' (to_double (15 / 10)) v) (\<lambda>v.
     bind_err (check_quantity_validity v) (\<lambda>v.
     let v = check_categorical_values v in
     check_data_distribution v)))"

definition order_frame :: dataframe where
  "order_frame =
     \<lparr>columns = [''date'', ''crop_type'', ''region'', ''quality'', ''season'', ''quantity_kg'',
                 ''market_price''],
      rows = [[Str ''2024-01-05'', Str ''Wheat'', Str ''North'', Str ''Grade_A'', Str ''Winter'',
               Num (Fin 100), Num (Fin 10)],
              [Str ''2024-01-06'', Str ''Rice'', Str ''North'', Str ''Grade_A'', Str ''Winter'',
               Num (Fin 100), Num (Fin 10)],
              [Str ''2024-01-07'', Str ''Corn'', Str ''North'', Str ''Grade_A'', Str ''Winter'',
               Num (Fin 100), Num (Fin 10)],
              [Str ''2024-01-08'', Str ''Pulses'', Str ''North'', Str ''Grade_A'', Str ''Winter'',
               Num (Fin 100), Num (Fin 12)],
              [Str ''2024-01-09'', Str ''Cotton'', Str ''North'', Str ''Grade_A'', Str ''Winter'',
               Num (Fin 0), Num (Fin 100)]]\<rparr>"

definition order_frame_cleaned :: validator where
  "order_frame_cleaned =
     \<lparr>df = \<lparr>columns = [''date'', ''crop_type'', ''region'', ''quality'', ''season'',
                         ''quantity_kg'', ''market_price''],
            rows = [[Str ''2024-01-05'', Str ''Wheat'', Str ''North'', Str ''Grade_A'',
                     Str ''Winter'', Num (Fin 100), Num (Fin 10)],
                    [Str ''2024-01-06'', Str ''Rice'', Str ''North'', Str ''Grade_A'',
                     Str ''Winter'', Num (Fin 100), Num (Fin 10)],
                    [Str ''2024-01-07'', Str ''Corn'', Str ''North'', Str ''Grade_A'',
                     Str ''Winter'', Num (Fin 100), Num (Fin 10)]]\<rparr>,
      quality_report =
        \<lparr>checks =
           [\<lparr>name = ''Missing Values'', passed = True\<rparr>,
            \<lparr>name = ''Duplicate Records'', passed = True\<rparr>,
            \<lparr>name = ''Quantity Validity'', passed = False\<rparr>,
            \<lparr>name = ''Categorical Values'', passed = True\<rparr>,
            \<lparr>name = ''Price Outliers'', passed = False\<rparr>,
            \<lparr>name = ''Data Distribution'', passed = True\<rparr>],
         issues_found = 2, issues_fixed = 2\<rparr>\<rparr>"

definition order_frame_claimed_result :: validator where
  "order_frame_claimed_result =
     \<lparr>df = \<lparr>columns = [''date'', ''crop_type'', ''region'', ''quality'', ''season'',
                         ''quantity_kg'', ''market_price''],
            rows = [[Str ''2024-01-05'', Str ''Wheat'', Str ''North'', Str ''Grade_A'',
                     Str ''Winter'', Num (Fin 100), Num (Fin 10)],
                    [Str ''2024-01-06'', Str ''Rice'', Str ''North'', Str ''Grade_A'',
                     Str ''Winter'', Num (Fin 100), Num (Fin 10)],
                    [Str ''2024-01-07'', Str ''Corn'', Str ''North'', Str ''Grade_A'',
                     Str ''Winter'', Num (Fin 100), Num (Fin 10)],
                    [Str ''2024-01-08'', Str ''Pulses'', Str ''North'', Str ''Grade_A'',
                     Str ''Winter'', Num (Fin 100), Num (Fin 12)]]\<rparr>,
      quality_report =
        \<lparr>checks =
           [\<lparr>name = ''Missing Values'', passed = True\<rparr>,
            \<lparr>name = ''Duplicate Records'', passed = True\<rparr>,
            \<lparr>name = ''Price Outliers'', passed = False\<rparr>,
            \<lparr>name = ''Quantity Validity'', passed = True\<rparr>,
            \<lparr>name = ''Categorical Values'', passed = True\<rparr>,
            \<lparr>name = ''Data Distribution'', passed = True\<rparr>],
         issues_found = 1, issues_fixed = 1\<rparr>\<rparr>"

definition claimed_validate :: "pandas \<Rightarrow> dataframe option \<Rightarrow> validator option \<times> (error + bool)" where
  "claimed_validate pd loaded = (case loaded of
     None \<Rightarrow> (None, Inr False)
   | Some d \<Rightarrow>
       (case claimed_run_checks pd (new_validator d) of
          Inl e \<Rightarrow> (None, Inl e)
        | Inr v \<Rightarrow> (Some v, bind_err (save_report v) (\<lambda>u. Inr True))))"

definition check_names :: "validator \<Rightarrow> string list" where
  \<comment> \<open>the names of the checks in the report, in the order they were appended\<close>
  "check_names v = map name (checks (quality_report v))"

text \<open>
  The rows the outlier check of \<open>validate\<close> sees, and two frames with missing
  values in season and weather.
\<close>

definition spec_before_outliers :: "pandas \<Rightarrow> dataframe \<Rightarrow> nat \<Rightarrow> cell list list" where
  "spec_before_outliers pd d qi =
     filter (spec_row_in_vocabulary (columns d))
       (filter (\<lambda>r. \<not> spec_quantity_rejected (cell_value (r ! qi)))
          (first_occurrences [] (spec_imputed pd d)))"

definition unknown_frame :: dataframe where
  "unknown_frame =
     \<lparr>columns = [''date'', ''crop_type'', ''region'', ''quality'', ''quantity_kg'', ''season'',
                 ''weather'', ''market_price''],
      rows = [[Str ''2024-01-05'', Str ''Wheat'', Str ''North'', Str ''Grade_A'', Num (Fin 100),
               Str ''Winter'', Str ''Sunny'', Num (Fin 10)],
              [Str ''2024-04-06'', Str ''Rice'', Str ''South'', Str ''Grade_A'', Num (Fin 100),
               Num NaN, Str ''Rainy'', Num (Fin 11)],
              [Str ''2024-04-07'', Str ''Corn'', Str ''North'', Str ''Grade_B'', Num (Fin 100),
               Str ''Spring'', Num NaN, Num (Fin 12)],
              [Str ''2024-07-08'', Str ''Pulses'', Str ''South'', Str ''Premium'', Num (Fin 100),
               Str ''Summer'', Str ''Hot'', Num (Fin 11)]]\<rparr>"

definition weather_frame :: dataframe where
  "weather_frame =
     \<lparr>columns = [''date'', ''crop_type'', ''region'', ''quality'', ''quantity_kg'', ''season'',
                 ''weather'', ''market_price''],
      rows = [[Str ''2024-01-05'', Str ''Wheat'', Str ''North'', Str ''Grade_A'', Num (Fin 100),
               Str ''Winter'', Str ''Sunny'', Num (Fin 10)],
              [Str ''2024-01-06'', Str ''Rice'', Str ''North'', Str ''Grade_A'', Num (Fin 100),
               Str ''Winter'', Str ''Rainy'', Num (Fin 11)],
              [Str ''2024-04-07'', Str ''Corn'', Str ''North'', Str ''Grade_B'', Num (Fin 0),
               Str ''Spring'', Num NaN, Num (Fin 12)]]\<rparr>"

definition unknown_frame_cleaned :: validator where
  "unknown_frame_cleaned =
     \<lparr>df = \<lparr>columns = [''date'', ''crop_type'', ''region'', ''quality'', ''quantity_kg'',
                         ''season'', ''weather'', ''market_price''],
            rows = [[Str ''2024-01-05'', Str ''Wheat'', Str ''North'', Str ''Grade_A'',
                     Num (Fin 100), Str ''Winter'', Str ''Sunny'', Num (Fin 10)],
                    [Str ''2024-04-07'', Str ''Corn'', Str ''North'', Str ''Grade_B'',
                     Num (Fin 100), Str ''Spring'', Str ''Unknown'', Num (Fin 12)],
                    [Str ''2024-07-08'', Str ''Pulses'', Str ''South'', Str ''Premium'',
                     Num (Fin 100), Str ''Summer'', Str ''Hot'', Num (Fin 11)]]\<rparr>,
      quality_report =
        \<lparr>checks =
           [\<lparr>name = ''Missing Values'', passed = False\<rparr>,
            \<lparr>name = ''Duplicate Records'', passed = True\<rparr>,
            \<lparr>name = ''Quantity Validity'', passed = True\<rparr>,
            \<lparr>name = ''Categorical Values'', passed = False\<rparr>,
            \<lparr>name = ''Price Outliers'', passed = True\<rparr>,
            \<lparr>name = ''Data Distribution'', passed = True\<rparr>],
         issues_found = 2, issues_fixed = 3\<rparr>\<rparr>"

definition weather_frame_cleaned :: validator where
  "weather_frame_cleaned =
     \<lparr>df = \<lparr>columns = [''date'', ''crop_type'', ''region'', ''quality'', ''quantity_kg'',
                         ''season'', ''weather'', ''market_price''],
            rows = [[Str ''2024-01-05'', Str ''Wheat'', Str ''North'', Str ''Grade_A'',
                     Num (Fin 100), Str ''Winter'', Str ''Sunny'', Num (Fin 10)],
                    [Str ''2024-01-06'', Str ''Rice'', Str ''North'', Str ''Grade_A'',
                     Num (Fin 100), Str ''Winter'', Str ''Rainy'', Num (Fin 11)]]\<rparr>,
      quality_report =
        \<lparr>checks =
           [\<lparr>name = ''Missing Values'', passed = False\<rparr>,
            \<lparr>name = ''Duplicate Records'', passed = True\<rparr>,
            \<lparr>name = ''Quantity Validity'', passed = False\<rparr>,
            \<lparr>name = ''Categorical Values'', passed = True\<rparr>,
            \<lparr>name = ''Price Outliers'', passed = True\<rparr>,
            \<lparr>name = ''Data Distribution'', passed = True\<rparr>],
         issues_found = 2, issues_fixed = 2\<rparr>\<rparr>"

definition rice_row :: "cell list" where
  \<comment> \<open>the second row of \<open>unknown_frame\<close>: its season is missing\<close>
  "rice_row = [Str ''2024-04-06'', Str ''Rice'', Str ''South'', Str ''Grade_A'', Num (Fin 100),
               Num NaN, Str ''Rainy'', Num (Fin 11)]"

text \<open>
  The rows that survive the pipeline, by position: the row at position \<open>j\<close> of the
  imputed frame survives when no equal row stands before it, its quantity is in range,
  its categorical values are in their vocabularies and its price is no outlier. A frame
  with the same row twice.
\<close>

definition spec_row_survives ::
  "pandas \<Rightarrow> dataframe \<Rightarrow> nat \<Rightarrow> nat \<Rightarrow> fl64 \<Rightarrow> fl64 \<Rightarrow> nat \<Rightarrow> bool" where
  "spec_row_survives pd d qcol pcol Q1 Q3 j =
     (spec_imputed pd d ! j \<notin> set (take j (spec_imputed pd d))
      \<and> \<not> spec_quantity_rejected (cell_value (spec_imputed pd d ! j ! qcol))
      \<and> spec_row_in_vocabulary (columns d) (spec_imputed pd d ! j)
      \<and> \<not> spec_price_outlier Q1 Q3 (cell_value (spec_imputed pd d ! j ! pcol)))"

definition spec_kept_positions ::
  "pandas \<Rightarrow> dataframe \<Rightarrow> nat \<Rightarrow> nat \<Rightarrow> fl64 \<Rightarrow> fl64 \<Rightarrow> nat list" where
  "spec_kept_positions pd d qcol pcol Q1 Q3 =
     filter (spec_row_survives pd d qcol pcol Q1 Q3) [0..<length (rows d)]"

definition twin_frame :: dataframe where
  "twin_frame =
     \<lparr>columns = [''date'', ''crop_type'', ''region'', ''quality'', ''quantity_kg'', ''season'',
                 ''weather'', ''market_price''],
      rows = [[Str ''2024-01-05'', Str ''Wheat'', Str ''North'', Str ''Grade_A'', Num (Fin 100),
               Str ''Winter'', Str ''Sunny'', Num (Fin 10)],
              [Str ''2024-04-07'', Str ''Corn'', Str ''North'', Str ''Grade_B'', Num (Fin 100),
               Str ''Spring'', Num NaN, Num (Fin 12)],
              [Str ''2024-04-07'', Str ''Corn'', Str ''North'', Str ''Grade_B'', Num (Fin 100),
               Str ''Spring'', Num NaN, Num (Fin 12)]]\<rparr>"

definition twin_frame_cleaned :: validator where
  "twin_frame_cleaned =
     \<lparr>df = \<lparr>columns = [''date'', ''crop_type'', ''region'', ''quality'', ''quantity_kg'',
                         ''season'', ''weather'', ''market_price''],
            rows = [[Str ''2024-01-05'', Str ''Wheat'', Str ''North'', Str ''Grade_A'',
                     Num (Fin 100), Str ''Winter'', Str ''Sunny'', Num (Fin 10)],
                    [Str ''2024-04-07'', Str ''Corn'', Str ''North'', Str ''Grade_B'',
                     Num (Fin 100), Str ''Spring'', Str ''Unknown'', Num (Fin 12)]]\<rparr>,
      quality_report =
        \<lparr>checks =
           [\<lparr>name = ''Missing Values'', passed = False\<rparr>,
            \<lparr>name = ''Duplicate Records'', passed = False\<rparr>,
            \<lparr>name = ''Quantity Validity'', passed = True\<rparr>,
            \<lparr>name = ''Categorical Values'', passed = True\<rparr>,
            \<lparr>name = ''Price Outliers'', passed = True\<rparr>,
            \<lparr>name = ''Data Distribution'', passed = True\<rparr>],
         issues_found = 2, issues_fixed = 2\<rparr>\<rparr>"

section \<open>Facts about rounding to a double\<close>

lemma bind_err_Inl [simp]: "bind_err (Inl e) f = Inl e"
  by (simp add: bind_err_def)

lemma bind_err_Inr [simp]: "bind_err (Inr x) f = f x"
  by (simp add: bind_err_def)

lemma rhe_of_int: "round_half_even (of_int m) = m"
  by (simp add: round_half_even_def)

lemma rhe_bounds: "\<lfloor>x\<rfloor> \<le> round_half_even x \<and> round_half_even x \<le> \<lceil>x\<rceil>"
proof -
  have "x = of_int \<lfloor>x\<rfloor> \<or> \<lceil>x\<rceil> = \<lfloor>x\<rfloor> + 1"
    by (metis ceiling_altdef)
  moreover have "x = of_int \<lfloor>x\<rfloor> \<Longrightarrow> round_half_even x = \<lfloor>x\<rfloor>"
    by (metis rhe_of_int floor_of_int)
  ultimately show ?thesis
    by (auto simp: round_half_even_def Let_def)
qed

lemma ilog2_bounds:
  assumes "0 < x"
  shows "2 powi (ilog2 x) \<le> x \<and> x < 2 powi (ilog2 x + 1)"
proof -
  obtain p q where pq: "quotient_of x = (p, q)" by (cases "quotient_of x")
  have q: "0 < q" using pq by (rule quotient_of_denom_pos)
  have x: "x = of_int p / of_int q" using pq by (rule quotient_of_div)
  have p: "0 < p" using assms q x by (simp add: zero_less_divide_iff)
  define bp where "bp = bitlen p"
  define bq where "bq = bitlen q"
  have bp1: "1 \<le> bp" using p by (simp add: bp_def bitlen_alt_def)
  have bq1: "1 \<le> bq" using q by (simp add: bq_def bitlen_alt_def)
  have pb: "2 ^ nat (bp - 1) \<le> p" "p < 2 ^ nat bp"
    using bitlen_bounds[OF p] by (simp_all add: bp_def)
  have qb: "2 ^ nat (bq - 1) \<le> q" "q < 2 ^ nat bq"
    using bitlen_bounds[OF q] by (simp_all add: bq_def)
  have pl: "(2::rat) powi (bp - 1) \<le> of_int p"
  proof -
    have "(of_int (2 ^ nat (bp - 1)) :: rat) \<le> of_int p" using pb(1) by (simp only: of_int_le_iff)
    then show ?thesis using bp1 by (simp add: power_int_def)
  qed
  have pu: "of_int p < (2::rat) powi bp"
  proof -
    have "(of_int p :: rat) < of_int (2 ^ nat bp)" using pb(2) by (simp only: of_int_less_iff)
    then show ?thesis using bp1 by (simp add: power_int_def)
  qed
  have ql: "(2::rat) powi (bq - 1) \<le> of_int q"
  proof -
    have "(of_int (2 ^ nat (bq - 1)) :: rat) \<le> of_int q" using qb(1) by (simp only: of_int_le_iff)
    then show ?thesis using bq1 by (simp add: power_int_def)
  qed
  have qu: "of_int q < (2::rat) powi bq"
  proof -
    have "(of_int q :: rat) < of_int (2 ^ nat bq)" using qb(2) by (simp only: of_int_less_iff)
    then show ?thesis using bq1 by (simp add: power_int_def)
  qed
  have qpos: "(0::rat) < of_int q" using q by simp
  have upper: "x < 2 powi (bp - bq + 1)"
  proof -
    have "of_int p < (2::rat) powi (bp - bq + 1) * 2 powi (bq - 1)"
      using pu by (simp add: power_int_add[symmetric])
    also have "\<dots> \<le> 2 powi (bp - bq + 1) * of_int q"
      using ql by (simp add: mult_left_mono)
    finally show ?thesis using qpos by (simp add: x pos_divide_less_eq)
  qed
  have lower: "2 powi (bp - bq - 1) \<le> x"
  proof -
    have "(2::rat) powi (bp - bq - 1) * of_int q \<le> 2 powi (bp - bq - 1) * 2 powi bq"
      using qu by (simp add: mult_left_mono)
    also have "\<dots> = 2 powi (bp - 1)" by (simp add: power_int_add[symmetric])
    also have "\<dots> \<le> of_int p" by (rule pl)
    finally show ?thesis using qpos by (simp add: x pos_le_divide_eq)
  qed
  have il: "ilog2 x = (if 2 powi (bp - bq) \<le> x then bp - bq else bp - bq - 1)"
    by (simp add: ilog2_def pq bp_def bq_def Let_def)
  show ?thesis
  proof (cases "2 powi (bp - bq) \<le> x")
    case True
    then show ?thesis using upper il by simp
  next
    case False
    then show ?thesis using lower il by simp
  qed
qed

lemma ilog2_unique:
  assumes "0 < x" "2 powi k \<le> x" "x < 2 powi (k + 1)"
  shows "ilog2 x = k"
proof (rule ccontr)
  assume ne: "ilog2 x \<noteq> k"
  note b = ilog2_bounds[OF assms(1)]
  show False
  proof (cases "ilog2 x < k")
    case True
    then have "(2::rat) powi (ilog2 x + 1) \<le> 2 powi k"
      by (intro power_int_increasing) auto
    then show False using b assms(2) by linarith
  next
    case False
    then have "k + 1 \<le> ilog2 x" using ne by simp
    then have "(2::rat) powi (k + 1) \<le> 2 powi (ilog2 x)"
      by (intro power_int_increasing) auto
    then show False using b assms(3) by linarith
  qed
qed


lemma round_exact:
  assumes "x = of_int k * 2 powi e" "x \<noteq> 0" "e = max (ilog2 \<bar>x\<bar> - 52) (- 1074)"
  shows "round_to_double x = x"
proof -
  have "x / 2 powi e = of_int k" using assms(1) by simp
  then have "round_half_even (x / 2 powi e) = k" by (simp only: rhe_of_int)
  then have "round_to_double x = of_int k * 2 powi e"
    unfolding round_to_double_def Let_def assms(3)[symmetric] using assms(2) by simp
  then show ?thesis by (simp only: assms(1)[symmetric])
qed

lemma round_form:
  assumes "x \<noteq> 0"
  defines "e \<equiv> max (ilog2 \<bar>x\<bar> - 52) (- 1074)"
  defines "m \<equiv> round_half_even (x / 2 powi e)"
  shows "round_to_double x = of_int m * 2 powi e" and "\<bar>m\<bar> \<le> 2 ^ 53"
proof -
  show "round_to_double x = of_int m * 2 powi e"
    using assms(1) by (simp add: round_to_double_def Let_def e_def m_def)
  have pos: "0 < \<bar>x\<bar>" using assms(1) by simp
  have "\<bar>x\<bar> < 2 powi (ilog2 \<bar>x\<bar> + 1)" using ilog2_bounds[OF pos] by simp
  also have "\<dots> \<le> 2 powi (e + 53)"
    by (intro power_int_increasing) (auto simp: e_def)
  also have "\<dots> = 2 powi e * 2 ^ 53" by (simp add: power_int_add)
  finally have "\<bar>x\<bar> / 2 powi e < 2 ^ 53"
    by (simp add: pos_divide_less_eq mult.commute)
  moreover define z where "z = x / 2 powi e"
  moreover have "\<bar>z\<bar> = \<bar>x\<bar> / 2 powi e" unfolding z_def by (simp add: power_int_abs)
  ultimately have "\<bar>z\<bar> < 2 ^ 53" by simp
  then have zb: "- (2 ^ 53) < z" "z < 2 ^ 53" by (simp_all only: abs_less_iff) linarith+
  have "- (2 ^ 53) \<le> \<lfloor>z\<rfloor>" using zb(1) by (simp add: le_floor_iff)
  moreover have "\<lceil>z\<rceil> \<le> 2 ^ 53" using zb(2) by (simp add: ceiling_le_iff)
  ultimately show "\<bar>m\<bar> \<le> 2 ^ 53"
    using rhe_bounds[of z] unfolding m_def z_def by linarith
qed

lemma round_to_double_idem: "round_to_double (round_to_double x) = round_to_double x"
proof (cases "round_to_double x = 0")
  case True
  then show ?thesis by (simp add: round_to_double_def)
next
  case False
  define y where "y = round_to_double x"
  have x0: "x \<noteq> 0" using False by (auto simp: round_to_double_def)
  define e where "e = max (ilog2 \<bar>x\<bar> - 52) (- 1074)"
  define m where "m = round_half_even (x / 2 powi e)"
  have y: "y = of_int m * 2 powi e" and mb: "\<bar>m\<bar> \<le> 2 ^ 53"
    using round_form[OF x0] by (simp_all add: y_def e_def m_def)
  have y0: "y \<noteq> 0" using False by (simp add: y_def)
  have m0: "m \<noteq> 0" using y0 y by auto
  have e_low: "- 1074 \<le> e" by (simp add: e_def)
  have ay: "\<bar>y\<bar> = of_int \<bar>m\<bar> * 2 powi e" by (simp add: y abs_mult)
  have ypos: "0 < \<bar>y\<bar>" using y0 by simp
  define e' where "e' = max (ilog2 \<bar>y\<bar> - 52) (- 1074)"
  have "\<exists>k. y = of_int k * 2 powi e'"
  proof (cases "\<bar>m\<bar> < 2 ^ 53")
    case True
    then have "(of_int \<bar>m\<bar> :: rat) < of_int (2 ^ 53)" by (simp only: of_int_less_iff)
    then have "\<bar>y\<bar> < 2 ^ 53 * 2 powi e" unfolding ay by simp
    also have "\<dots> = 2 powi (e + 53)" by (simp add: power_int_add)
    finally have "2 powi (ilog2 \<bar>y\<bar>) < (2::rat) powi (e + 53)"
      using ilog2_bounds[OF ypos] by linarith
    then have "ilog2 \<bar>y\<bar> < e + 53"
      using power_int_increasing[of "e + 53" "ilog2 \<bar>y\<bar>" "2::rat"] by (cases "ilog2 \<bar>y\<bar> < e + 53") auto
    then have le: "e' \<le> e" using e_low by (simp add: e'_def)
    have "(2::rat) powi e = 2 powi (e - e') * 2 powi e'" by (simp add: power_int_add[symmetric])
    also have "(2::rat) powi (e - e') = of_int (2 ^ nat (e - e'))" using le by (simp add: power_int_def)
    finally have "y = of_int (m * 2 ^ nat (e - e')) * 2 powi e'" by (simp add: y)
    then show ?thesis by blast
  next
    case False
    then have am: "\<bar>m\<bar> = 2 ^ 53" using mb by simp
    then have ay2: "\<bar>y\<bar> = 2 powi (e + 53)" unfolding ay by (simp add: power_int_add)
    have "ilog2 \<bar>y\<bar> = e + 53"
    proof (rule ilog2_unique[OF ypos])
      show "2 powi (e + 53) \<le> \<bar>y\<bar>" by (simp add: ay2)
      show "\<bar>y\<bar> < 2 powi (e + 53 + 1)" unfolding ay2
        by (intro power_int_strict_increasing) auto
    qed
    then have e': "e' = e + 1" using e_low by (simp add: e'_def)
    have "m = 2 ^ 53 \<or> m = - (2 ^ 53)" using am by linarith
    then have "y = of_int (m div 2) * 2 powi e'"
      unfolding y e' by (auto simp: power_int_add)
    then show ?thesis by blast
  qed
  then obtain k where "y = of_int k * 2 powi e'" by blast
  then have "round_to_double y = y" using y0 e'_def by (rule round_exact)
  then show ?thesis by (simp add: y_def)
qed

lemma to_double_idem: "to_double x = Fin v \<Longrightarrow> to_double v = Fin v"
  by (auto simp: to_double_def Let_def round_to_double_idem split: if_splits)
    (auto simp: round_to_double_def)

lemma to_double_1: "to_double 1 = Fin 1"
  by code_simp

lemma is_double_to_double: "is_double (to_double x)"
  by (auto simp: is_double_def to_double_idem split: fl64.splits)

lemma is_double_fl_mul: "is_double (fl_mul x y)"
  by (cases x; cases y) (auto simp: is_double_to_double, auto simp: is_double_def)

lemma fl_mul_one: "is_double x \<Longrightarrow> fl_mul x (to_double 1) = x"
  by (cases x) (auto simp: to_double_1 is_double_def)

section \<open>The fallback price\<close>

lemma table_get_base:
  "table_get base_prices k (to_double 40) =
     (if hashable k then Inr (spec_base_price k) else Inl TypeError)"
  by (cases k) (auto simp: table_get_def base_prices_def spec_base_price_def)

lemma table_get_quality:
  "table_get quality_multiplier k (to_double 1) =
     (if hashable k then Inr (spec_quality_multiplier k) else Inl TypeError)"
  by (cases k) (auto simp: table_get_def quality_multiplier_def spec_quality_multiplier_def)

lemma table_get_region:
  "table_get region_multiplier k (to_double 1) =
     (if hashable k then Inr (spec_region_multiplier k) else Inl TypeError)"
  by (cases k) (auto simp: table_get_def region_multiplier_def spec_region_multiplier_def)

lemma table_get_season:
  "table_get season_multiplier k (to_double 1) =
     (if hashable k then Inr (spec_season_multiplier k) else Inl TypeError)"
  by (cases k) (auto simp: table_get_def season_multiplier_def spec_season_multiplier_def)

lemma listed_price_eq:
  "listed_price features =
     (let crop_type = features_get features ''crop_type'' (PStr ''Wheat'');
          quality = features_get features ''quality'' (PStr ''Grade_A'');
          region = features_get features ''region'' (PStr ''North'');
          season = features_get features ''season'' (PStr ''Winter'')
      in if hashable crop_type \<and> hashable quality \<and> hashable region \<and> hashable season
         then Inr (fl_mul (fl_mul (fl_mul (spec_base_price crop_type)
                     (spec_quality_multiplier quality)) (spec_region_multiplier region))
                     (spec_season_multiplier season))
         else Inl TypeError)"
  by (simp add: listed_price_def Let_def table_get_base table_get_quality table_get_region
      table_get_season)

lemma listed_price_is_double: "listed_price features = Inr price \<Longrightarrow> is_double price"
  by (auto simp: listed_price_eq Let_def is_double_fl_mul split: if_splits)

lemma py_greater_number:
  "number_value v = Some q \<Longrightarrow> py_greater v k = Inr (fl_less (Fin (of_int k)) q)"
  by (cases v rule: number_value.cases) auto

lemma fl_less_imp_le: "fl_less x y \<Longrightarrow> fl_le x y"
  by (cases x; cases y) auto

lemma fl_le_total: "x \<noteq> NaN \<Longrightarrow> y \<noteq> NaN \<Longrightarrow> fl_less y x \<or> fl_le x y"
  by (cases x; cases y) auto

lemma discount_tiers:
  assumes "number_value (features_get features ''quantity_kg'' (PInt 1000)) = Some q"
    and "listed_price features = Inr price"
  shows "get_fallback_prediction features =
           Inr (py_round (fl_mul price (spec_bulk_discount q)) 2)"
proof -
  have d: "is_double price" using assms(2) by (rule listed_price_is_double)
  have "fl_less (Fin 2000) q \<Longrightarrow> \<not> fl_less (Fin 5000) q \<Longrightarrow> fl_le q (Fin 5000)"
    by (cases q) auto
  then show ?thesis
    using assms d
    by (auto simp: get_fallback_prediction_def Let_def py_greater_number[OF assms(1)]
        spec_bulk_discount_def fl_mul_one)
qed


text \<open>
  Claim C1. For every feature map on which \<open>get_fallback_prediction\<close> returns (its
  crop type, quality, region and season are hashable and its quantity is a number; it
  raises TypeError on any other), the price returned is
  \<open>round(base * q * r * s * bulk, 2)\<close> in float arithmetic, with the base price of the
  crop type (40.0 for a crop type that is not in the table), the quality, region and
  season multipliers of the specification (1.0 for a value that is not listed) and the
  bulk discount of the quantity. An entry the map does not have is read as the code's
  default for it: Wheat, Grade_A, North, Winter and 1000.
\<close>

theorem fallback_price_formula:
  fixes features :: "string \<rightharpoonup> pyval"
  assumes "hashable (features_get features ''crop_type'' (PStr ''Wheat''))"
    and "hashable (features_get features ''quality'' (PStr ''Grade_A''))"
    and "hashable (features_get features ''region'' (PStr ''North''))"
    and "hashable (features_get features ''season'' (PStr ''Winter''))"
    and "number_value (features_get features ''quantity_kg'' (PInt 1000)) = Some quantity_kg"
  shows "get_fallback_prediction features =
     Inr (py_round
       (fl_mul (fl_mul (fl_mul (fl_mul
          (spec_base_price (features_get features ''crop_type'' (PStr ''Wheat'')))
          (spec_quality_multiplier (features_get features ''quality'' (PStr ''Grade_A''))))
          (spec_region_multiplier (features_get features ''region'' (PStr ''North''))))
          (spec_season_multiplier (features_get features ''season'' (PStr ''Winter''))))
          (spec_bulk_discount quantity_kg)) 2)"
proof -
  have "listed_price features =
     Inr (fl_mul (fl_mul (fl_mul
          (spec_base_price (features_get features ''crop_type'' (PStr ''Wheat'')))
          (spec_quality_multiplier (features_get features ''quality'' (PStr ''Grade_A''))))
          (spec_region_multiplier (features_get features ''region'' (PStr ''North''))))
          (spec_season_multiplier (features_get features ''season'' (PStr ''Winter''))))"
    using assms(1-4) by (simp add: listed_price_eq Let_def)
  with assms(5) show ?thesis by (rule discount_tiers)
qed

theorem fallback_price_formula_witness:
  "get_fallback_prediction rice_order = Inr (to_double (4054 / 100))"
proof -
  have g: "features_get rice_order ''crop_type'' (PStr ''Wheat'') = PStr ''Rice''"
    "features_get rice_order ''quality'' (PStr ''Grade_A'') = PStr ''Grade_C''"
    "features_get rice_order ''region'' (PStr ''North'') = PStr ''South''"
    "features_get rice_order ''season'' (PStr ''Winter'') = PStr ''Spring''"
    "features_get rice_order ''quantity_kg'' (PInt 1000) = PFloat (Fin 6000)"
    by (simp_all add: features_get_def rice_order_def)
  have "get_fallback_prediction rice_order =
     Inr (py_round
       (fl_mul (fl_mul (fl_mul (fl_mul
          (spec_base_price (PStr ''Rice'')) (spec_quality_multiplier (PStr ''Grade_C'')))
          (spec_region_multiplier (PStr ''South''))) (spec_season_multiplier (PStr ''Spring'')))
          (spec_bulk_discount (Fin 6000))) 2)"
    using fallback_price_formula[of rice_order "Fin 6000"] by (simp add: g)
  also have "\<dots> = Inr (to_double (4054 / 100))"
    by code_simp
  finally show ?thesis .
qed

lemma fallback_raises:
  "\<not> (hashable (features_get features ''crop_type'' (PStr ''Wheat''))
      \<and> hashable (features_get features ''quality'' (PStr ''Grade_A''))
      \<and> hashable (features_get features ''region'' (PStr ''North''))
      \<and> hashable (features_get features ''season'' (PStr ''Winter''))
      \<and> is_number (features_get features ''quantity_kg'' (PInt 1000)))
   \<Longrightarrow> get_fallback_prediction features = Inl TypeError"
  by (cases "features_get features ''quantity_kg'' (PInt 1000)")
    (auto simp: get_fallback_prediction_def listed_price_eq Let_def)

text \<open>
  Claim C2. The bulk discount of \<open>get_fallback_prediction\<close>: for a quantity that is a
  number, the price before the discount is multiplied by 0.90 when the quantity is
  above 5000, by 0.95 when it is above 2000 and at most 5000, and by 1.0 otherwise (the
  code multiplies by nothing then, and the price is the same double). At 5000 the factor
  is 0.95, at 2000 the price is not discounted.
\<close>

theorem bulk_discount_tiers:
  assumes "number_value (features_get features ''quantity_kg'' (PInt 1000)) = Some q"
    and "listed_price features = Inr price"
  shows "get_fallback_prediction features =
           Inr (py_round (fl_mul price
             (if fl_less (Fin 5000) q then to_double (90 / 100)
              else if fl_less (Fin 2000) q \<and> fl_le q (Fin 5000) then to_double (95 / 100)
              else to_double 1)) 2)
         \<and> (q = Fin 5000 \<longrightarrow>
              get_fallback_prediction features
                = Inr (py_round (fl_mul price (to_double (95 / 100))) 2))
         \<and> (q = Fin 2000 \<longrightarrow> get_fallback_prediction features = Inr (py_round price 2))"
proof -
  have d: "is_double price" using assms(2) by (rule listed_price_is_double)
  have "get_fallback_prediction features =
          Inr (py_round (fl_mul price (spec_bulk_discount q)) 2)"
    using assms by (rule discount_tiers)
  then show ?thesis using d by (auto simp: spec_bulk_discount_def fl_mul_one)
qed

theorem bulk_discount_tiers_witness:
  "listed_price wheat_order = Inr (to_double 45)
   \<and> get_fallback_prediction wheat_order = Inr (to_double (4275 / 100))"
proof -
  have q: "number_value (features_get wheat_order ''quantity_kg'' (PInt 1000))
            = Some (Fin 5000)"
    by (simp add: features_get_def wheat_order_def)
  have p: "listed_price wheat_order = Inr (to_double 45)"
    by code_simp
  have "get_fallback_prediction wheat_order
          = Inr (py_round (fl_mul (to_double 45) (to_double (95 / 100))) 2)"
    using bulk_discount_tiers[OF q p] by simp
  also have "\<dots> = Inr (to_double (4275 / 100))"
    by code_simp
  finally show ?thesis using p by simp
qed

text \<open>
  Claim C8. \<open>get_fallback_prediction\<close> is a function of its argument alone: it reads
  no other state and writes none (the model is a HOL function of the feature map, so
  equal maps give equal results), and of the argument it reads only the entries
  crop_type, quality, region, season and quantity_kg: two maps that agree on these five
  keys give the same result, a price or an exception.
\<close>

theorem fallback_reads_five_entries:
  assumes "\<forall>k \<in> set [''crop_type'', ''quality'', ''region'', ''season'', ''quantity_kg''].
             f k = g k"
  shows "get_fallback_prediction f = get_fallback_prediction g"
  using assms by (simp add: get_fallback_prediction_def listed_price_def features_get_def)

theorem fallback_reads_five_entries_witness:
  "get_fallback_prediction (rice_order(''weather'' \<mapsto> PStr ''Sunny'', ''year'' \<mapsto> PInt 2024))
     = get_fallback_prediction rice_order"
  using fallback_reads_five_entries
    [of "rice_order(''weather'' \<mapsto> PStr ''Sunny'', ''year'' \<mapsto> PInt 2024)" rice_order]
  by simp


section \<open>The request handler\<close>

lemma powi_less_imp_less:
  assumes "(2::rat) powi a < 2 powi b" shows "a < b"
  using power_int_increasing[of b a "2::rat"] assms by (cases "a < b") auto

lemma to_double_overflow:
  assumes "2 ^ 1024 \<le> x"
  shows "to_double x = PosInf"
proof -
  have "(0::rat) < 2 ^ 1024" by simp
  then have xpos: "0 < x" using assms by linarith
  define k where "k = ilog2 \<bar>x\<bar>"
  have kb: "2 powi k \<le> x" "x < 2 powi (k + 1)"
    using ilog2_bounds[of "\<bar>x\<bar>"] xpos by (simp_all add: k_def)
  have "(2::rat) powi 1024 < 2 powi (k + 1)" using assms kb(2) by simp
  then have k1024: "1024 \<le> k" using powi_less_imp_less[of 1024 "k + 1"] by simp
  define e where "e = max (k - 52) (- 1074)"
  have e: "e = k - 52" using k1024 by (simp add: e_def)
  define m where "m = round_half_even (x / 2 powi e)"
  have v: "round_to_double x = of_int m * 2 powi e"
    using xpos by (simp add: round_to_double_def Let_def m_def e_def k_def)
  have "(2::rat) powi k = 2 ^ 52 * 2 powi e" by (simp add: e power_int_diff)
  then have "2 ^ 52 \<le> x / 2 powi e" using kb(1) by (simp add: pos_le_divide_eq)
  then have "2 ^ 52 \<le> \<lfloor>x / 2 powi e\<rfloor>" by (simp add: le_floor_iff)
  then have m52: "2 ^ 52 \<le> m" using rhe_bounds[of "x / 2 powi e"] unfolding m_def by linarith
  then have "(of_int (2 ^ 52) :: rat) \<le> of_int m" by (simp only: of_int_le_iff)
  then have "2 ^ 52 * 2 powi e \<le> of_int m * (2::rat) powi e"
    by (intro mult_right_mono) simp_all
  then have vk: "2 powi k \<le> round_to_double x"
    using \<open>(2::rat) powi k = 2 ^ 52 * 2 powi e\<close> v by simp
  have "(0::rat) < 2 powi k" by simp
  then have vpos: "0 < round_to_double x" using vk by linarith
  have "2 powi k < (2::rat) powi (ilog2 \<bar>round_to_double x\<bar> + 1)"
    using ilog2_bounds[of "\<bar>round_to_double x\<bar>"] vpos vk by simp
  then have "k \<le> ilog2 \<bar>round_to_double x\<bar>"
    using powi_less_imp_less[of k "ilog2 \<bar>round_to_double x\<bar> + 1"] by simp
  then show ?thesis using vpos k1024 by (simp add: to_double_def Let_def)
qed

lemma huge_int: "(2::rat) ^ 1024 \<le> of_int (10 ^ 400)"
proof -
  have "(2::int) ^ 1024 \<le> 10 ^ 400" by simp
  then have "(of_int (2 ^ 1024) :: rat) \<le> of_int (10 ^ 400)" by (simp only: of_int_le_iff)
  then show ?thesis by simp
qed

lemma collect_missing_dict:
  "collect_missing fs (PDict kvs) = Inr (filter (\<lambda>f. map_of kvs f = None) fs)"
  by (induction fs) (auto simp: map_of_eq_None_iff)

text \<open>
  Claim C9. The handler of /api/predict is to answer 400 with success false exactly
  when the body is empty, a required field is absent, or the quantity cannot be
  converted to a float or converts to a value that is not positive. The code does so
  for every JSON object but one kind: when quantity_kg is an int too large for a double,
  \<open>float\<close> raises OverflowError, the except clause of \<open>validate_input\<close> catches
  ValueError and TypeError only, and the handler answers 500. Evaluated here at the
  quantity \<open>10 ^ 400\<close>, for every clock, model and string parser.
\<close>

theorem predict_route_overflow:
  "predict_price_route str_to_float now_year now_month predictor model_loaded huge_quantity_body
     = \<lparr>status = 500, success = False, body = ErrorBody (Raised OverflowError)\<rparr>"
proof -
  have "to_double (of_int (10 ^ 400)) = PosInf"
    using huge_int by (rule to_double_overflow)
  then show ?thesis
    by (simp add: predict_price_route_def huge_quantity_body_def validate_input_def
        collect_missing_dict required_fields_def)
qed

text \<open>
  A body that is a number or \<open>true\<close> is not iterable: \<open>field not in data\<close> raises
  TypeError outside the try block of \<open>validate_input\<close>, and the answer is 500 as well.
\<close>

lemma predict_route_not_iterable:
  "predict_price_route str_to_float now_year now_month predictor model_loaded (PInt 5)
     = \<lparr>status = 500, success = False, body = ErrorBody (Raised TypeError)\<rparr>"
  by (simp add: predict_price_route_def validate_input_def required_fields_def)

lemma validate_input_dict:
  "validate_input str_to_float (PDict kvs) =
     (if filter (\<lambda>f. map_of kvs f = None) required_fields \<noteq> []
      then Inr (False, MissingRequiredFields (filter (\<lambda>f. map_of kvs f = None) required_fields))
      else case map_of kvs ''quantity_kg'' of
        None \<Rightarrow> Inl KeyError
      | Some v \<Rightarrow>
         (case py_float str_to_float v of
            Inr q \<Rightarrow> if fl_le q (Fin 0) then Inr (False, QuantityMustBePositive)
                     else Inr (True, Valid)
          | Inl ValueError \<Rightarrow> Inr (False, QuantityMustBeNumber)
          | Inl TypeError \<Rightarrow> Inr (False, QuantityMustBeNumber)
          | Inl e \<Rightarrow> Inl e))"
  by (auto simp: validate_input_def collect_missing_dict split: option.splits sum.splits error.splits)

lemma py_float_errors:
  "py_float str_to_float v = Inl e \<Longrightarrow> e = TypeError \<or> e = ValueError \<or> e = OverflowError"
  by (cases v) (auto split: fl64.splits option.splits)

text \<open>
  For a JSON object whose quantity does not overflow, the handler answers 400 exactly
  in the cases the claim lists; a quantity above 100000 is accepted.
\<close>

lemma route_status_after_validation:
  "validate_input str_to_float data = Inr (True, m) \<Longrightarrow> truthy data \<Longrightarrow>
   status (predict_price_route str_to_float now_year now_month predictor model_loaded data)
     \<in> {200, 500}"
  by (simp add: predict_price_route_def split: sum.splits)

lemma predict_route_rejects_iff:
  assumes "\<forall>v. map_of kvs ''quantity_kg'' = Some v
             \<longrightarrow> py_float str_to_float v \<noteq> Inl OverflowError"
  shows "status (predict_price_route str_to_float now_year now_month predictor model_loaded
           (PDict kvs)) = 400
         \<longleftrightarrow> spec_rejects str_to_float kvs"
proof (cases "kvs = []")
  case True
  then show ?thesis by (simp add: predict_price_route_def spec_rejects_def)
next
  case False
  show ?thesis
  proof (cases "filter (\<lambda>f. map_of kvs f = None) required_fields = []")
    case miss: False
    then have "\<exists>f \<in> set required_fields. map_of kvs f = None"
      by (auto simp: filter_empty_conv)
    then have "\<exists>field \<in> set [''crop_type'', ''region'', ''quality'', ''quantity_kg''].
                 map_of kvs field = None"
      by (simp add: required_fields_def)
    then show ?thesis
      using False miss
      by (simp add: predict_price_route_def validate_input_dict spec_rejects_def)
  next
    case nomiss: True
    then have allp: "\<forall>f \<in> set required_fields. map_of kvs f \<noteq> None"
      by (auto simp: filter_empty_conv)
    then have "map_of kvs ''quantity_kg'' \<noteq> None" by (simp add: required_fields_def)
    then obtain v where v: "map_of kvs ''quantity_kg'' = Some v" by blast
    have all: "\<not> (\<exists>field \<in> set [''crop_type'', ''region'', ''quality'', ''quantity_kg''].
                 map_of kvs field = None)"
      using allp by (simp add: required_fields_def)
    have no: "py_float str_to_float v \<noteq> Inl OverflowError" using assms v by blast
    show ?thesis
    proof (cases "py_float str_to_float v")
      case (Inl e)
      then have "e = TypeError \<or> e = ValueError" using py_float_errors[OF Inl] no by auto
      then show ?thesis
        using False nomiss v Inl all
        by (auto simp: predict_price_route_def validate_input_dict spec_rejects_def)
    next
      case (Inr q)
      show ?thesis
      proof (cases "fl_le q (Fin 0)")
        case True
        then show ?thesis
          using False nomiss v Inr all
          by (simp add: predict_price_route_def validate_input_dict spec_rejects_def)
      next
        case neg: False
        have "validate_input str_to_float (PDict kvs) = Inr (True, Valid)"
          using nomiss v Inr neg by (simp add: validate_input_dict)
        then have "status (predict_price_route str_to_float now_year now_month predictor
                     model_loaded (PDict kvs)) \<in> {200, 500}"
          using False by (intro route_status_after_validation) simp_all
        then show ?thesis
          using False v Inr neg all by (auto simp: spec_rejects_def)
      qed
    qed
  qed
qed

section \<open>The checks of the validator\<close>

lemma select_map: "map snd (filter fst (zip (map f xs) xs)) = filter f xs"
  by (induction xs) auto

lemma rows_select_rows [simp]: "rows (select_rows (map f (rows d)) d) = filter f (rows d)"
  by (simp add: select_rows_def select_map)

lemma columns_select_rows [simp]: "columns (select_rows keep d) = columns d"
  by (simp add: select_rows_def)

lemma count_true_none:
  "\<not> 0 < count_true (map P xs) \<Longrightarrow> filter (\<lambda>x. \<not> P x) xs = xs"
  by (auto simp: count_true_def filter_empty_conv filter_id_conv)

lemma col_index_Some: "col_index cs c = Some i \<Longrightarrow> i < length cs \<and> cs ! i = c"
  by (induction cs arbitrary: i) (auto split: if_splits)

lemma col_index_None: "col_index cs c = None \<longleftrightarrow> c \<notin> set cs"
  by (induction cs) auto


lemma map_err_cell_num:
  "map_err cell_num cs = Inr xs \<Longrightarrow> xs = map cell_value cs \<and> (\<forall>c \<in> set cs. \<exists>x. c = Num x)"
proof (induction cs arbitrary: xs)
  case Nil
  then show ?case by simp
next
  case (Cons c cs)
  then show ?case
    by (cases c; cases "map_err cell_num cs") auto
qed

lemma map_err_cell_num_total:
  "\<forall>c \<in> set cs. \<exists>x. c = Num x \<Longrightarrow> map_err cell_num cs = Inr (map cell_value cs)"
  by (induction cs) auto

lemma numeric_column_iff:
  "numeric_column d i \<longleftrightarrow> (\<forall>c \<in> set (map (\<lambda>r. r ! i) (rows d)). \<exists>x. c = Num x)"
proof -
  have "(case c of Num x \<Rightarrow> True | Str s \<Rightarrow> False) \<longleftrightarrow> (\<exists>x. c = Num x)" for c
    by (cases c) auto
  then show ?thesis by (simp add: numeric_column_def list_all_iff)
qed

lemma check_quantity_rows:
  assumes "check_quantity_validity v = Inr v'"
  shows "\<exists>i. col_index (columns (df v)) ''quantity_kg'' = Some i \<and> numeric_column (df v) i
           \<and> rows (df v') = filter (\<lambda>r. \<not> spec_quantity_rejected (cell_value (r ! i))) (rows (df v))
           \<and> columns (df v') = columns (df v)"
proof -
  obtain i where i: "col_index (columns (df v)) ''quantity_kg'' = Some i"
    using assms by (cases "col_index (columns (df v)) ''quantity_kg''")
      (auto simp: check_quantity_validity_def column_def)
  define qs where "qs = map (\<lambda>r. r ! i) (rows (df v))"
  obtain xs where xs: "map_err cell_num qs = Inr xs"
    using assms i by (cases "map_err cell_num qs")
      (auto simp: check_quantity_validity_def column_def qs_def)
  note m = map_err_cell_num[OF xs]
  have num: "numeric_column (df v) i" using m by (simp add: numeric_column_iff qs_def)
  define P where "P = (\<lambda>r. spec_quantity_rejected (cell_value (r ! i)))"
  have inv: "map (\<lambda>q. fl_le q (Fin 0) \<or> fl_less (Fin 100000) q) xs = map P (rows (df v))"
    using m by (simp add: qs_def P_def spec_quantity_rejected_def comp_def)
  have "rows (df v') = filter (\<lambda>r. \<not> P r) (rows (df v)) \<and> columns (df v') = columns (df v)"
    using assms i xs count_true_none[of P "rows (df v)"]
    by (auto simp: check_quantity_validity_def column_def qs_def[symmetric] inv Let_def
        comp_def add_check_def fixed_issue_def found_issue_def split: if_splits)
  then show ?thesis using i num by (simp add: P_def)
qed

lemma check_quantity_returns:
  assumes "col_index (columns (df v)) ''quantity_kg'' = Some i" "numeric_column (df v) i"
  shows "\<exists>v'. check_quantity_validity v = Inr v'"
  using assms map_err_cell_num_total[of "map (\<lambda>r. r ! i) (rows (df v))"]
  by (simp add: check_quantity_validity_def column_def numeric_column_iff Let_def)

text \<open>
  Claim C7. The quantity check, on a frame whose quantity_kg column holds numbers,
  returns and removes exactly the rows whose quantity is at most 0 or above 100000:
  the rows left are the others, in their order and unchanged, and every row with
  \<open>0 < quantity_kg \<le> 100000\<close> is among them. (A missing quantity is neither at most 0
  nor above 100000 and stays. On a column with a string, or without the column, the
  check raises.)
\<close>

theorem quantity_check_removes_out_of_range:
  assumes "col_index (columns (df v)) ''quantity_kg'' = Some i"
    and "numeric_column (df v) i"
  shows "\<exists>v'. check_quantity_validity v = Inr v'
           \<and> rows (df v') =
               filter (\<lambda>r. \<not> spec_quantity_rejected (cell_value (r ! i))) (rows (df v))
           \<and> columns (df v') = columns (df v)
           \<and> (\<forall>r \<in> set (rows (df v)).
                 fl_less (Fin 0) (cell_value (r ! i)) \<and> fl_le (cell_value (r ! i)) (Fin 100000)
                 \<longrightarrow> r \<in> set (rows (df v')))"
proof -
  obtain v' where v': "check_quantity_validity v = Inr v'"
    using check_quantity_returns[OF assms] by blast
  from check_quantity_rows[OF v'] assms(1)
  have r: "rows (df v') =
             filter (\<lambda>r. \<not> spec_quantity_rejected (cell_value (r ! i))) (rows (df v))"
    and c: "columns (df v') = columns (df v)" by auto
  have "\<not> spec_quantity_rejected q" if "fl_less (Fin 0) q" "fl_le q (Fin 100000)" for q
    using that by (cases q) (auto simp: spec_quantity_rejected_def)
  then show ?thesis using v' r c by auto
qed

theorem quantity_check_removes_out_of_range_witness:
  "\<exists>v'. check_quantity_validity (new_validator quantity_frame) = Inr v'
        \<and> rows (df v') = [[Str ''Wheat'', Num (Fin 100)], [Str ''Pulses'', Num (Fin 100000)],
                           [Str ''Fruits'', Num NaN]]"
proof -
  have h1: "col_index (columns (df (new_validator quantity_frame))) ''quantity_kg'' = Some 1"
    by (simp add: new_validator_def quantity_frame_def)
  have h2: "numeric_column (df (new_validator quantity_frame)) 1"
    by (simp add: new_validator_def quantity_frame_def numeric_column_def)
  have "filter (\<lambda>r. \<not> spec_quantity_rejected (cell_value (r ! 1)))
          (rows (df (new_validator quantity_frame)))
        = [[Str ''Wheat'', Num (Fin 100)], [Str ''Pulses'', Num (Fin 100000)],
           [Str ''Fruits'', Num NaN]]"
    by (simp add: new_validator_def quantity_frame_def spec_quantity_rejected_def)
  then show ?thesis
    using quantity_check_removes_out_of_range[OF h1 h2] by auto
qed

lemma drop_invalid_rows:
  "drop_invalid vs (ok, v) = (ok', v') \<Longrightarrow>
     columns (df v') = columns (df v)
     \<and> rows (df v') =
         filter (\<lambda>r. list_all (\<lambda>(col, valid_list).
                    case col_index (columns (df v)) col of
                      None \<Rightarrow> True
                    | Some i \<Rightarrow> isin (r ! i) valid_list) vs) (rows (df v))"
proof (induction vs arbitrary: ok v)
  case Nil
  then show ?case by simp
next
  case (Cons a vs)
  obtain col valid_list where a: "a = (col, valid_list)" by (cases a)
  show ?case
  proof (cases "col_index (columns (df v)) col")
    case None
    then show ?thesis using Cons a by simp
  next
    case (Some i)
    define P where "P = (\<lambda>r. \<not> isin (r ! i) valid_list)"
    define v1 where "v1 = (if 0 < count_true (map P (rows (df v)))
        then fixed_issue ((found_issue v)\<lparr>df := select_rows (map Not (map P (rows (df v)))) (df v)\<rparr>)
        else v)"
    have step: "drop_invalid (a # vs) (ok, v)
                 = drop_invalid vs (if 0 < count_true (map P (rows (df v))) then False else ok, v1)"
      by (simp add: a Some Let_def P_def v1_def)
    have c1: "columns (df v1) = columns (df v)"
      by (simp add: v1_def fixed_issue_def found_issue_def)
    have r1: "rows (df v1) = filter (\<lambda>r. isin (r ! i) valid_list) (rows (df v))"
      using count_true_none[of P "rows (df v)"]
      by (auto simp: v1_def fixed_issue_def found_issue_def comp_def P_def)
    from Cons.prems step
    have "drop_invalid vs (if 0 < count_true (map P (rows (df v))) then False else ok, v1)
            = (ok', v')" by simp
    from Cons.IH[OF this] show ?thesis
      by (simp add: c1 r1 a Some conj_commute cong: conj_cong)
  qed
qed

lemma valid_values_spec:
  "list_all (\<lambda>(col, valid_list).
       case col_index cols col of None \<Rightarrow> True | Some i \<Rightarrow> isin (r ! i) valid_list) valid_values
   = spec_row_in_vocabulary cols r"
  by (simp add: valid_values_def spec_row_in_vocabulary_def spec_checked_columns_def
      spec_vocabulary_def split: option.splits)

lemma check_categorical_rows:
  "rows (df (check_categorical_values v))
     = filter (spec_row_in_vocabulary (columns (df v))) (rows (df v))"
  "columns (df (check_categorical_values v)) = columns (df v)"
proof -
  obtain ok' v' where d: "drop_invalid valid_values (True, v) = (ok', v')"
    by (cases "drop_invalid valid_values (True, v)")
  from drop_invalid_rows[OF d]
  show "rows (df (check_categorical_values v))
     = filter (spec_row_in_vocabulary (columns (df v))) (rows (df v))"
    "columns (df (check_categorical_values v)) = columns (df v)"
    by (simp_all add: check_categorical_values_def d add_check_def valid_values_spec)
qed

text \<open>
  Claim C6. The categorical check leaves exactly the rows in which every one of the
  columns crop_type, region, quality, season and market_demand that the frame has
  holds a value of that column's vocabulary; the rows left keep their order and their
  values, and the columns are the same. A missing value and a number are outside every
  vocabulary.
\<close>

theorem categorical_check_keeps_vocabulary_rows:
  "rows (df (check_categorical_values v))
     = filter (spec_row_in_vocabulary (columns (df v))) (rows (df v))
   \<and> columns (df (check_categorical_values v)) = columns (df v)"
  by (simp add: check_categorical_rows)

theorem categorical_check_keeps_vocabulary_rows_witness:
  "rows (df (check_categorical_values (new_validator category_frame)))
     = [[Str ''Wheat'', Str ''Winter'', Str ''Sunny''],
        [Str ''Spices'', Str ''Monsoon'', Str ''Unknown'']]"
proof -
  have "filter (spec_row_in_vocabulary (columns (df (new_validator category_frame))))
          (rows (df (new_validator category_frame)))
        = [[Str ''Wheat'', Str ''Winter'', Str ''Sunny''],
           [Str ''Spices'', Str ''Monsoon'', Str ''Unknown'']]"
    by (simp add: new_validator_def category_frame_def spec_row_in_vocabulary_def
        spec_checked_columns_def spec_vocabulary_def)
  then show ?thesis
    using categorical_check_keeps_vocabulary_rows[of "new_validator category_frame"] by simp
qed

lemma fl_le_not_less: "fl_le x y \<Longrightarrow> \<not> fl_less y x"
  by (cases x; cases y) auto

lemma price_outliers_iqr:
  assumes "price_outliers pd ''iqr'' (to_double (15 / 10)) d = Inr outliers"
  shows "\<exists>i Q1 Q3. col_index (columns d) ''market_price'' = Some i \<and> numeric_column d i
           \<and> quantile pd (map (\<lambda>r. r ! i) (rows d)) (1 / 4) = Inr Q1
           \<and> quantile pd (map (\<lambda>r. r ! i) (rows d)) (3 / 4) = Inr Q3
           \<and> outliers = map (\<lambda>r. spec_price_outlier Q1 Q3 (cell_value (r ! i))) (rows d)"
proof -
  obtain i where i: "col_index (columns d) ''market_price'' = Some i"
    using assms by (cases "col_index (columns d) ''market_price''")
      (auto simp: price_outliers_def column_def)
  define prices where "prices = map (\<lambda>r. r ! i) (rows d)"
  obtain Q1 where q1: "quantile pd prices (1 / 4) = Inr Q1"
    using assms i by (cases "quantile pd prices (1 / 4)")
      (auto simp: price_outliers_def column_def prices_def)
  obtain Q3 where q3: "quantile pd prices (3 / 4) = Inr Q3"
    using assms i q1 by (cases "quantile pd prices (3 / 4)")
      (auto simp: price_outliers_def column_def prices_def)
  obtain ps where ps: "map_err cell_num prices = Inr ps"
    using assms i q1 q3 by (cases "map_err cell_num prices")
      (auto simp: price_outliers_def column_def prices_def Let_def)
  note m = map_err_cell_num[OF ps]
  have num: "numeric_column d i" using m by (simp add: numeric_column_iff prices_def)
  have "outliers = map (\<lambda>r. spec_price_outlier Q1 Q3 (cell_value (r ! i))) (rows d)"
    using assms i q1 q3 ps m
    by (auto simp: price_outliers_def column_def prices_def[symmetric] Let_def
        spec_price_outlier_def)
      (simp add: prices_def)
  then show ?thesis using i q1 q3 num by (auto simp: prices_def)
qed

lemma price_outliers_returns:
  assumes "col_index (columns d) ''market_price'' = Some i" and "numeric_column d i"
    and "quantile pd (map (\<lambda>r. r ! i) (rows d)) (1 / 4) = Inr Q1"
    and "quantile pd (map (\<lambda>r. r ! i) (rows d)) (3 / 4) = Inr Q3"
  shows "price_outliers pd ''iqr'' (to_double (15 / 10)) d
           = Inr (map (\<lambda>r. spec_price_outlier Q1 Q3 (cell_value (r ! i))) (rows d))"
  using assms map_err_cell_num_total[of "map (\<lambda>r. r ! i) (rows d)"]
  by (simp add: price_outliers_def column_def numeric_column_iff Let_def
      spec_price_outlier_def comp_def)

lemma check_price_outliers_rows:
  assumes "check_price_outliers pd ''iqr'' (to_double (15 / 10)) v = Inr v'"
  shows "\<exists>i Q1 Q3. col_index (columns (df v)) ''market_price'' = Some i
           \<and> numeric_column (df v) i
           \<and> quantile pd (map (\<lambda>r. r ! i) (rows (df v))) (1 / 4) = Inr Q1
           \<and> quantile pd (map (\<lambda>r. r ! i) (rows (df v))) (3 / 4) = Inr Q3
           \<and> rows (df v') =
               filter (\<lambda>r. \<not> spec_price_outlier Q1 Q3 (cell_value (r ! i))) (rows (df v))
           \<and> columns (df v') = columns (df v)"
proof -
  obtain outliers where o: "price_outliers pd ''iqr'' (to_double (15 / 10)) (df v) = Inr outliers"
    using assms by (cases "price_outliers pd ''iqr'' (to_double (15 / 10)) (df v)")
      (auto simp: check_price_outliers_def)
  from price_outliers_iqr[OF o] obtain i Q1 Q3 where
    h: "col_index (columns (df v)) ''market_price'' = Some i" "numeric_column (df v) i"
       "quantile pd (map (\<lambda>r. r ! i) (rows (df v))) (1 / 4) = Inr Q1"
       "quantile pd (map (\<lambda>r. r ! i) (rows (df v))) (3 / 4) = Inr Q3"
       "outliers = map (\<lambda>r. spec_price_outlier Q1 Q3 (cell_value (r ! i))) (rows (df v))"
    by blast
  define P where "P = (\<lambda>r. spec_price_outlier Q1 Q3 (cell_value (r ! i)))"
  have "rows (df v') = filter (\<lambda>r. \<not> P r) (rows (df v)) \<and> columns (df v') = columns (df v)"
    using assms o h(5) count_true_none[of P "rows (df v)"]
    by (auto simp: check_price_outliers_def P_def[symmetric] comp_def add_check_def
        fixed_issue_def found_issue_def split: if_splits)
  then show ?thesis using h by (auto simp: P_def)
qed

text \<open>
  Claim C4. The price-outlier check of \<open>validate\<close> (the IQR method, threshold 1.5), on
  a frame whose market_price column holds numbers and has quartiles Q1 and Q3, returns
  and removes exactly the rows whose price is strictly below \<open>Q1 - 1.5 * IQR\<close> or
  strictly above \<open>Q3 + 1.5 * IQR\<close>, with \<open>IQR = Q3 - Q1\<close> and the quartiles taken of the
  column as it is when the check runs; every row with a price inside the closed
  interval is kept. The bounds are computed in float arithmetic.
\<close>

theorem outlier_check_removes_outside_iqr_bounds:
  assumes "col_index (columns (df v)) ''market_price'' = Some i"
    and "numeric_column (df v) i"
    and "quantile pd (map (\<lambda>r. r ! i) (rows (df v))) (1 / 4) = Inr Q1"
    and "quantile pd (map (\<lambda>r. r ! i) (rows (df v))) (3 / 4) = Inr Q3"
  shows "\<exists>v'. check_price_outliers pd ''iqr'' (to_double (15 / 10)) v = Inr v'
           \<and> rows (df v') =
               filter (\<lambda>r. \<not> (fl_less (cell_value (r ! i))
                                  (fl_sub Q1 (fl_mul (to_double (15 / 10)) (fl_sub Q3 Q1)))
                              \<or> fl_less (fl_add Q3 (fl_mul (to_double (15 / 10)) (fl_sub Q3 Q1)))
                                  (cell_value (r ! i))))
                 (rows (df v))
           \<and> columns (df v') = columns (df v)
           \<and> (\<forall>r \<in> set (rows (df v)).
                 fl_le (fl_sub Q1 (fl_mul (to_double (15 / 10)) (fl_sub Q3 Q1)))
                   (cell_value (r ! i))
                 \<and> fl_le (cell_value (r ! i))
                     (fl_add Q3 (fl_mul (to_double (15 / 10)) (fl_sub Q3 Q1)))
                 \<longrightarrow> r \<in> set (rows (df v')))"
proof -
  have o: "price_outliers pd ''iqr'' (to_double (15 / 10)) (df v)
        = Inr (map (\<lambda>r. spec_price_outlier Q1 Q3 (cell_value (r ! i))) (rows (df v)))"
    using assms by (rule price_outliers_returns)
  have "\<exists>v'. check_price_outliers pd ''iqr'' (to_double (15 / 10)) v = Inr v'"
    using o by (simp add: check_price_outliers_def)
  then obtain v' where v': "check_price_outliers pd ''iqr'' (to_double (15 / 10)) v = Inr v'"
    by blast
  from check_price_outliers_rows[OF v'] assms
  have "rows (df v') =
          filter (\<lambda>r. \<not> spec_price_outlier Q1 Q3 (cell_value (r ! i))) (rows (df v))"
    and "columns (df v') = columns (df v)" by auto
  then show ?thesis
    using v' by (auto simp: spec_price_outlier_def dest: fl_le_not_less)
qed

theorem outlier_check_removes_outside_iqr_bounds_witness:
  "\<exists>v'. check_price_outliers pandas_model ''iqr'' (to_double (15 / 10)) (new_validator price_frame)
          = Inr v'
        \<and> rows (df v') = [[Str ''Wheat'', Num (Fin 10)], [Str ''Rice'', Num (Fin 20)],
                           [Str ''Corn'', Num (Fin 30)], [Str ''Pulses'', Num (Fin 40)]]"
proof -
  have h1: "col_index (columns (df (new_validator price_frame))) ''market_price'' = Some 1"
    by (simp add: new_validator_def price_frame_def)
  have h2: "numeric_column (df (new_validator price_frame)) 1"
    by (simp add: new_validator_def price_frame_def numeric_column_def)
  have h3: "quantile pandas_model (map (\<lambda>r. r ! 1) (rows (df (new_validator price_frame)))) (1 / 4)
              = Inr (Fin 20)"
    by code_simp
  have h4: "quantile pandas_model (map (\<lambda>r. r ! 1) (rows (df (new_validator price_frame)))) (3 / 4)
              = Inr (Fin 40)"
    by code_simp
  have "filter (\<lambda>r. \<not> (fl_less (cell_value (r ! 1))
                         (fl_sub (Fin 20) (fl_mul (to_double (15 / 10)) (fl_sub (Fin 40) (Fin 20))))
                      \<or> fl_less (fl_add (Fin 40) (fl_mul (to_double (15 / 10)) (fl_sub (Fin 40) (Fin 20))))
                         (cell_value (r ! 1))))
          (rows (df (new_validator price_frame)))
        = [[Str ''Wheat'', Num (Fin 10)], [Str ''Rice'', Num (Fin 20)],
           [Str ''Corn'', Num (Fin 30)], [Str ''Pulses'', Num (Fin 40)]]"
    by code_simp
  then show ?thesis
    using outlier_check_removes_outside_iqr_bounds[OF h1 h2 h3 h4] by auto
qed

lemma first_occurrences_cong:
  "set s1 = set s2 \<Longrightarrow> first_occurrences s1 xs = first_occurrences s2 xs"
proof (induction xs arbitrary: s1 s2)
  case Nil
  then show ?case by simp
next
  case (Cons x xs)
  have "first_occurrences (x # s1) xs = first_occurrences (x # s2) xs"
    using Cons.prems by (intro Cons.IH) simp
  moreover have "first_occurrences s1 xs = first_occurrences s2 xs"
    using Cons.prems by (rule Cons.IH)
  ultimately show ?case using Cons.prems by simp
qed

lemma first_occurrences_seen:
  "a \<in> set seen \<Longrightarrow> first_occurrences (a # seen) xs = first_occurrences seen xs"
  by (rule first_occurrences_cong) auto

lemma select_first_occurrences:
  "map snd (filter fst (zip (map Not (duplicated_from seen xs)) xs)) = first_occurrences seen xs"
  by (induction xs arbitrary: seen) (auto simp: first_occurrences_seen)

lemma no_duplicates_first_occurrences:
  "\<not> 0 < count_true (duplicated_from seen xs) \<Longrightarrow> first_occurrences seen xs = xs"
  by (induction xs arbitrary: seen) (auto simp: count_true_def)

lemma check_duplicates_rows:
  "rows (df (check_duplicates v)) = first_occurrences [] (rows (df v))"
  "columns (df (check_duplicates v)) = columns (df v)"
  using no_duplicates_first_occurrences[of "[]" "rows (df v)"]
  by (auto simp: check_duplicates_def Let_def duplicated_def add_check_def fixed_issue_def
      found_issue_def select_rows_def select_first_occurrences)

lemma set_first_occurrences: "set (first_occurrences seen xs) = set xs - set seen"
  by (induction xs arbitrary: seen) auto

section \<open>The missing-value step\<close>

lemma wf_frame_rows: "wf_frame d \<Longrightarrow> r \<in> set (rows d) \<Longrightarrow> length r = length (columns d)"
  by (simp add: wf_frame_def list_all_iff)

lemma fillna_rows:
  "col_index (columns d) c = Some i \<Longrightarrow>
     rows (fillna d c x) = map (\<lambda>r. if isnull (r ! i) then r[i := x] else r) (rows d)"
  by (simp add: fillna_def)

lemma fillna_columns [simp]: "columns (fillna d c x) = columns d"
  by (simp add: fillna_def split: option.splits)

lemma wf_frame_fillna: "wf_frame d \<Longrightarrow> wf_frame (fillna d c x)"
  by (auto simp: wf_frame_def fillna_def list_all_iff split: option.splits)

lemma impute_Inr:
  assumes "impute pd c d = Inr d'"
  shows "\<exists>i x. col_index (columns d) c = Some i
           \<and> spec_fill_value pd c (map (\<lambda>r. r ! i) (rows d)) = Some x \<and> d' = fillna d c x"
proof -
  obtain i where i: "col_index (columns d) c = Some i"
    using assms by (cases "col_index (columns d) c") (auto simp: impute_def column_def)
  show ?thesis
    using assms i
    by (auto simp: impute_def column_def spec_fill_value_def split: if_splits sum.splits list.splits)
qed


lemma column_fillna_other:
  assumes "col_index (columns d) c = Some i" "k \<noteq> i"
  shows "map (\<lambda>r. r ! k) (rows (fillna d c x)) = map (\<lambda>r. r ! k) (rows d)"
  using assms by (simp add: fillna_rows)

lemma spec_fill_cell_fillna_other:
  assumes "col_index (columns d) c = Some i" "k \<noteq> i"
  shows "spec_fill_cell pd (fillna d c x) k = spec_fill_cell pd d k"
  using column_fillna_other[OF assms] by (simp add: spec_fill_cell_def fun_eq_iff)

lemma imputed_step:
  assumes wf: "wf_frame d" and i: "col_index (columns d) c = Some i"
    and x: "spec_fill_value pd c (map (\<lambda>r. r ! i) (rows d)) = Some x"
    and c: "c \<notin> set cs"
  shows "spec_imputed_columns pd cs (fillna d c x) = spec_imputed_columns pd (c # cs) d"
proof -
  have ci: "i < length (columns d)" "columns d ! i = c"
    using col_index_Some[OF i] by simp_all
  have dist: "distinct (columns d)" using wf by (simp add: wf_frame_def)
  have row: "map (\<lambda>(k, a). if columns d ! k \<in> set cs then spec_fill_cell pd (fillna d c x) k a else a)
               (enumerate 0 (if isnull (r ! i) then r[i := x] else r))
           = map (\<lambda>(k, a). if columns d ! k \<in> set (c # cs) then spec_fill_cell pd d k a else a)
               (enumerate 0 r)"
    if r: "r \<in> set (rows d)" for r
  proof (rule nth_equalityI)
    show "length (map (\<lambda>(k, a). if columns d ! k \<in> set cs
                 then spec_fill_cell pd (fillna d c x) k a else a)
               (enumerate 0 (if isnull (r ! i) then r[i := x] else r)))
        = length (map (\<lambda>(k, a). if columns d ! k \<in> set (c # cs)
                 then spec_fill_cell pd d k a else a) (enumerate 0 r))"
      by simp
  next
    fix k
    assume "k < length (map (\<lambda>(k, a). if columns d ! k \<in> set cs
                 then spec_fill_cell pd (fillna d c x) k a else a)
               (enumerate 0 (if isnull (r ! i) then r[i := x] else r)))"
    then have k: "k < length r" by (simp split: if_splits)
    have len: "length r = length (columns d)" using wf r by (rule wf_frame_rows)
    show "map (\<lambda>(k, a). if columns d ! k \<in> set cs
                 then spec_fill_cell pd (fillna d c x) k a else a)
               (enumerate 0 (if isnull (r ! i) then r[i := x] else r)) ! k
        = map (\<lambda>(k, a). if columns d ! k \<in> set (c # cs)
                 then spec_fill_cell pd d k a else a) (enumerate 0 r) ! k"
    proof (cases "k = i")
      case True
      then show ?thesis
        using k c ci x by (simp add: nth_enumerate_eq spec_fill_cell_def)
    next
      case False
      then have "columns d ! k \<noteq> c"
        using dist ci k len by (auto simp: nth_eq_iff_index_eq)
      then show ?thesis
        using k False spec_fill_cell_fillna_other[OF i False]
        by (simp add: nth_enumerate_eq)
    qed
  qed
  show ?thesis
    by (simp add: spec_imputed_columns_def fillna_rows[OF i] row cong: map_cong)
qed


lemma enumerate_cells: "map (\<lambda>(i, c). c) (enumerate n r) = r"
proof -
  have "(\<lambda>(i :: nat, c :: 'a). c) = snd" by (simp add: fun_eq_iff)
  then show ?thesis by simp
qed

lemma imputed_no_columns: "spec_imputed_columns pd [] d = rows d"
  by (simp add: spec_imputed_columns_def enumerate_cells)

lemma fill_missing_rows:
  assumes "wf_frame (df v)" "distinct cs" "fill_missing pd cs v = Inr v'"
  shows "columns (df v') = columns (df v) \<and> rows (df v') = spec_imputed_columns pd cs (df v)"
  using assms
proof (induction cs arbitrary: v)
  case Nil
  then show ?case by (simp add: imputed_no_columns)
next
  case (Cons c cs)
  obtain d1 where d1: "impute pd c (df v) = Inr d1"
    using Cons.prems(3) by (cases "impute pd c (df v)") auto
  from impute_Inr[OF d1] obtain i x where
    i: "col_index (columns (df v)) c = Some i"
    and x: "spec_fill_value pd c (map (\<lambda>r. r ! i) (rows (df v))) = Some x"
    and d1': "d1 = fillna (df v) c x" by blast
  define v1 where "v1 = fixed_issue (v\<lparr>df := d1\<rparr>)"
  have dv1: "df v1 = d1" by (simp add: v1_def fixed_issue_def)
  have wf1: "wf_frame (df v1)" using Cons.prems(1) by (simp add: dv1 d1' wf_frame_fillna)
  have "fill_missing pd cs v1 = Inr v'" using Cons.prems(3) d1 by (simp add: v1_def)
  from Cons.IH[OF wf1 _ this] Cons.prems(2)
  have "columns (df v') = columns (df v1)" "rows (df v') = spec_imputed_columns pd cs (df v1)"
    by simp_all
  moreover have "spec_imputed_columns pd cs (fillna (df v) c x)
                   = spec_imputed_columns pd (c # cs) (df v)"
    using Cons.prems(1) i x by (rule imputed_step) (use Cons.prems(2) in simp)
  ultimately show ?case by (simp add: dv1 d1')
qed


lemma missing_columns:
  "map fst (filter (\<lambda>(col, count). 0 < count) (missing_counts d))
     = map snd (filter (\<lambda>(i, c). has_missing d i) (enumerate 0 (columns d)))"
proof -
  have "0 < length (filter (\<lambda>r. isnull (r ! i)) (rows d)) \<longleftrightarrow> has_missing d i" for i
    by (auto simp: has_missing_def filter_empty_conv)
  then show ?thesis
    by (simp add: missing_counts_def filter_map comp_def case_prod_unfold)
qed

lemma missing_total:
  "0 < sum_list (map snd (missing_counts d)) \<longleftrightarrow> (\<exists>i < length (columns d). has_missing d i)"
proof -
  have cnt: "0 < length (filter (\<lambda>r. isnull (r ! i)) (rows d)) \<longleftrightarrow> has_missing d i" for i
    by (auto simp: has_missing_def filter_empty_conv)
  define cnt where "cnt = (\<lambda>i. length (filter (\<lambda>r. isnull (r ! i)) (rows d)))"
  have "map snd (missing_counts d) = map (\<lambda>x. cnt (fst x)) (enumerate 0 (columns d))"
    by (simp add: missing_counts_def comp_def case_prod_unfold cnt_def)
  also have "\<dots> = map cnt [0..<length (columns d)]"
    by (rule nth_equalityI) (simp_all add: nth_enumerate_eq)
  also have "\<dots> = map (\<lambda>i. length (filter (\<lambda>r. isnull (r ! i)) (rows d)))
                     [0..<length (columns d)]"
    by (simp add: cnt_def)
  finally have "0 < sum_list (map snd (missing_counts d))
      \<longleftrightarrow> (\<exists>i \<in> set [0..<length (columns d)].
            0 < length (filter (\<lambda>r. isnull (r ! i)) (rows d)))"
    by (auto simp: sum_list_eq_0_iff simp flip: neq0_conv simp del: length_greater_0_conv)
  then show ?thesis by (simp only: cnt) auto
qed

lemma imputed_columns_all:
  assumes "wf_frame d"
    and "\<forall>k < length (columns d). has_missing d k \<longrightarrow> columns d ! k \<in> set cs"
  shows "spec_imputed_columns pd cs d = spec_imputed pd d"
proof -
  have "(if columns d ! k \<in> set cs then spec_fill_cell pd d k a else a) = spec_fill_cell pd d k a"
    if "r \<in> set (rows d)" "(k, a) \<in> set (enumerate 0 r)" for r k a
  proof -
    have k: "k < length r" "a = r ! k" using that(2) by (auto simp: in_set_enumerate_eq)
    have len: "length r = length (columns d)" using assms(1) that(1) by (rule wf_frame_rows)
    show ?thesis
    proof (cases "isnull a")
      case True
      then have "has_missing d k" using that(1) k by (auto simp: has_missing_def)
      then show ?thesis using assms(2) k len by simp
    next
      case False
      then show ?thesis by (simp add: spec_fill_cell_def)
    qed
  qed
  then show ?thesis
    by (auto simp: spec_imputed_def spec_imputed_row_def spec_imputed_columns_def
        intro!: map_cong)
qed

lemma missing_columns_distinct:
  "distinct (columns d) \<Longrightarrow>
     distinct (map snd (filter (\<lambda>(i, c). has_missing d i) (enumerate 0 (columns d))))"
  by (rule distinct_map_filter) simp

lemma missing_columns_set:
  "c \<in> set (map snd (filter (\<lambda>(i, c). has_missing d i) (enumerate 0 (columns d))))
     \<longleftrightarrow> (\<exists>k < length (columns d). columns d ! k = c \<and> has_missing d k)"
  by (auto simp: in_set_enumerate_eq image_iff)

lemma check_missing_rows:
  assumes "wf_frame (df v)" "check_missing_values pd v = Inr v'"
  shows "columns (df v') = columns (df v) \<and> rows (df v') = spec_imputed pd (df v)"
proof (cases "0 < sum_list (map snd (missing_counts (df v)))")
  case True
  define cs where
    "cs = map snd (filter (\<lambda>(i, c). has_missing (df v) i) (enumerate 0 (columns (df v))))"
  have dist: "distinct cs"
    using assms(1) unfolding cs_def by (intro missing_columns_distinct) (simp add: wf_frame_def)
  obtain v1 where v1: "fill_missing pd cs (found_issue v) = Inr v1"
    and v': "v' = add_check \<lparr>name = ''Missing Values'', passed = False\<rparr> v1"
    using assms(2) True
    by (cases "fill_missing pd cs (found_issue v)")
      (auto simp: check_missing_values_def Let_def missing_columns cs_def)
  have d: "df (found_issue v) = df v" by (simp add: found_issue_def)
  have "columns (df v1) = columns (df v) \<and> rows (df v1) = spec_imputed_columns pd cs (df v)"
    using fill_missing_rows[of "found_issue v" cs pd v1] assms(1) dist v1 by (simp add: d)
  moreover have "spec_imputed_columns pd cs (df v) = spec_imputed pd (df v)"
    using assms(1) by (rule imputed_columns_all) (simp only: cs_def missing_columns_set, blast)
  ultimately show ?thesis by (simp add: v' add_check_def)
next
  case False
  then have none: "\<forall>k < length (columns (df v)). \<not> has_missing (df v) k"
    by (simp add: missing_total)
  have "spec_imputed_columns pd [] (df v) = spec_imputed pd (df v)"
    using assms(1) by (rule imputed_columns_all) (use none in simp)
  then have "rows (df v) = spec_imputed pd (df v)" by (simp add: imputed_no_columns)
  then show ?thesis
    using assms(2) False by (auto simp: check_missing_values_def Let_def add_check_def)
qed





section \<open>The order of the checks\<close>

lemma fill_missing_names:
  "fill_missing pd cs v = Inr v' \<Longrightarrow> check_names v' = check_names v"
proof (induction cs arbitrary: v)
  case Nil
  then show ?case by simp
next
  case (Cons c cs)
  then show ?case
    by (cases "impute pd c (df v)") (auto simp: check_names_def fixed_issue_def)
qed

lemma check_missing_names:
  "check_missing_values pd v = Inr v' \<Longrightarrow> check_names v' = check_names v @ [''Missing Values'']"
  by (auto simp: check_missing_values_def Let_def bind_err_def check_names_def add_check_def
      found_issue_def split: if_splits sum.splits dest!: fill_missing_names)

lemma check_duplicates_names:
  "check_names (check_duplicates v) = check_names v @ [''Duplicate Records'']"
  by (simp add: check_duplicates_def Let_def check_names_def add_check_def found_issue_def
      fixed_issue_def)

lemma check_quantity_names:
  "check_quantity_validity v = Inr v' \<Longrightarrow>
     check_names v' = check_names v @ [''Quantity Validity'']"
  by (auto simp: check_quantity_validity_def Let_def bind_err_def check_names_def add_check_def
      found_issue_def fixed_issue_def split: if_splits sum.splits)

lemma drop_invalid_names:
  "drop_invalid vs (ok, v) = (ok', v') \<Longrightarrow> check_names v' = check_names v"
proof (induction vs arbitrary: ok v)
  case Nil
  then show ?case by simp
next
  case (Cons a vs)
  obtain col valid_list where a: "a = (col, valid_list)" by (cases a)
  show ?case
    using Cons.prems
    by (auto simp: a Let_def check_names_def found_issue_def fixed_issue_def
        split: option.splits if_splits dest!: Cons.IH)
qed

lemma check_categorical_names:
  "check_names (check_categorical_values v) = check_names v @ [''Categorical Values'']"
proof -
  obtain ok' v' where d: "drop_invalid valid_values (True, v) = (ok', v')"
    by (cases "drop_invalid valid_values (True, v)")
  from drop_invalid_names[OF d] show ?thesis
    by (simp add: check_categorical_values_def d check_names_def add_check_def)
qed

lemma check_outliers_names:
  "check_price_outliers pd method t v = Inr v' \<Longrightarrow>
     check_names v' = check_names v @ [''Price Outliers'']"
  by (auto simp: check_price_outliers_def bind_err_def check_names_def add_check_def
      found_issue_def fixed_issue_def split: if_splits sum.splits)

lemma check_distribution_names:
  "check_data_distribution v = Inr v' \<Longrightarrow>
     check_names v' = check_names v @ [''Data Distribution''] \<and> df v' = df v"
  by (auto simp: check_data_distribution_def Let_def bind_err_def check_names_def add_check_def
      split: sum.splits)

lemma run_checks_steps:
  assumes "run_checks pd v = Inr v'"
  shows "\<exists>v1 v3 v5. check_missing_values pd v = Inr v1
           \<and> check_quantity_validity (check_duplicates v1) = Inr v3
           \<and> check_price_outliers pd ''iqr'' (to_double (15 / 10)) (check_categorical_values v3)
               = Inr v5
           \<and> check_data_distribution v5 = Inr v'"
  using assms
  by (auto simp: run_checks_def Let_def bind_err_def split: sum.splits)

lemma validate_Some:
  "fst (validate pd (Some d)) = Some v' \<longleftrightarrow> run_checks pd (new_validator d) = Inr v'"
  by (auto simp: validate_def split: sum.splits)

text \<open>
  Claim C5, as amended. \<open>validate\<close>, when it comes to write the cleaned frame, has run
  its checks in the order of the code: missing values, duplicate records, quantity
  validity, categorical values, price outliers and last the data distribution, each on
  the frame the one before left; the report lists them in this order.
  The claim puts the outlier check third, before the quantity and the categorical
  check. The two orders differ in their result, since the quartiles are those of the
  rows that are left when the outlier check runs.
\<close>

theorem validate_check_order:
  assumes "fst (validate pd (Some d)) = Some v'"
  shows "check_names v' =
           [''Missing Values'', ''Duplicate Records'', ''Quantity Validity'',
            ''Categorical Values'', ''Price Outliers'', ''Data Distribution'']
         \<and> (\<exists>v1 v3 v5. check_missing_values pd (new_validator d) = Inr v1
              \<and> check_quantity_validity (check_duplicates v1) = Inr v3
              \<and> check_price_outliers pd ''iqr'' (to_double (15 / 10))
                    (check_categorical_values v3) = Inr v5
              \<and> check_data_distribution v5 = Inr v' \<and> df v' = df v5)"
proof -
  have r: "run_checks pd (new_validator d) = Inr v'" using assms by (simp add: validate_Some)
  from run_checks_steps[OF r] obtain v1 v3 v5 where
    s: "check_missing_values pd (new_validator d) = Inr v1"
       "check_quantity_validity (check_duplicates v1) = Inr v3"
       "check_price_outliers pd ''iqr'' (to_double (15 / 10)) (check_categorical_values v3)
          = Inr v5"
       "check_data_distribution v5 = Inr v'" by blast
  have "check_names (new_validator d) = []" by (simp add: check_names_def new_validator_def)
  then have "check_names v' =
           [''Missing Values'', ''Duplicate Records'', ''Quantity Validity'',
            ''Categorical Values'', ''Price Outliers'', ''Data Distribution'']"
    using check_missing_names[OF s(1)] check_duplicates_names[of v1]
      check_quantity_names[OF s(2)] check_categorical_names[of v3]
      check_outliers_names[OF s(3)] check_distribution_names[OF s(4)]
    by simp
  then show ?thesis using s check_distribution_names[OF s(4)] by blast
qed

lemma order_frame_code:
  "validate pandas_model (Some order_frame) = (Some order_frame_cleaned, Inr True)"
  by code_simp

lemma order_frame_claimed:
  "claimed_validate pandas_model (Some order_frame) = (Some order_frame_claimed_result, Inr True)"
  by code_simp

theorem validate_check_order_witness:
  "fst (validate pandas_model (Some order_frame)) = Some order_frame_cleaned
   \<and> check_names order_frame_cleaned =
       [''Missing Values'', ''Duplicate Records'', ''Quantity Validity'',
        ''Categorical Values'', ''Price Outliers'', ''Data Distribution'']"
proof -
  have h: "fst (validate pandas_model (Some order_frame)) = Some order_frame_cleaned"
    by (simp add: order_frame_code)
  then show ?thesis using validate_check_order[OF h] by simp
qed

text \<open>
  On \<open>order_frame\<close> the code first drops the row with quantity 0 and then finds the
  price 12 an outlier among 10, 10, 10, 12; in the claimed order the price 100 of the
  row with quantity 0 widens the bounds, and the row with price 12 stays.
\<close>

theorem validate_check_order_counterexample:
  "validate pandas_model (Some order_frame) \<noteq> claimed_validate pandas_model (Some order_frame)
   \<and> (\<exists>v'. fst (validate pandas_model (Some order_frame)) = Some v'
          \<and> map (\<lambda>r. r ! 1) (rows (df v')) = [Str ''Wheat'', Str ''Rice'', Str ''Corn''])
   \<and> (\<exists>v'. fst (claimed_validate pandas_model (Some order_frame)) = Some v'
          \<and> map (\<lambda>r. r ! 1) (rows (df v'))
              = [Str ''Wheat'', Str ''Rice'', Str ''Corn'', Str ''Pulses''])"
  by (simp add: order_frame_code order_frame_claimed)
    (simp add: order_frame_cleaned_def order_frame_claimed_result_def)

section \<open>The pipeline as a whole\<close>

lemma pipeline_rows:
  assumes "wf_frame d" and "fst (validate pd (Some d)) = Some v'"
  shows "\<exists>qi pi Q1 Q3.
           col_index (columns d) ''quantity_kg'' = Some qi
         \<and> col_index (columns d) ''market_price'' = Some pi
         \<and> quantile pd (map (\<lambda>r. r ! pi) (spec_before_outliers pd d qi)) (1 / 4) = Inr Q1
         \<and> quantile pd (map (\<lambda>r. r ! pi) (spec_before_outliers pd d qi)) (3 / 4) = Inr Q3
         \<and> columns (df v') = columns d
         \<and> rows (df v') =
             filter (\<lambda>r. \<not> spec_price_outlier Q1 Q3 (cell_value (r ! pi)))
               (spec_before_outliers pd d qi)"
proof -
  have r: "run_checks pd (new_validator d) = Inr v'" using assms(2) by (simp add: validate_Some)
  from run_checks_steps[OF r] obtain v1 v3 v5 where
    s: "check_missing_values pd (new_validator d) = Inr v1"
       "check_quantity_validity (check_duplicates v1) = Inr v3"
       "check_price_outliers pd ''iqr'' (to_double (15 / 10)) (check_categorical_values v3)
          = Inr v5"
       "check_data_distribution v5 = Inr v'" by blast
  have d0: "df (new_validator d) = d" by (simp add: new_validator_def)
  have m: "columns (df v1) = columns d" "rows (df v1) = spec_imputed pd d"
    using check_missing_rows[of "new_validator d" pd v1] assms(1) s(1) by (simp_all add: d0)
  have du: "columns (df (check_duplicates v1)) = columns d"
    "rows (df (check_duplicates v1)) = first_occurrences [] (spec_imputed pd d)"
    by (simp_all add: check_duplicates_rows m)
  from check_quantity_rows[OF s(2)] obtain qi where
    q: "col_index (columns d) ''quantity_kg'' = Some qi"
       "rows (df v3) = filter (\<lambda>r. \<not> spec_quantity_rejected (cell_value (r ! qi)))
                         (first_occurrences [] (spec_imputed pd d))"
       "columns (df v3) = columns d"
    by (auto simp: du)
  have c: "columns (df (check_categorical_values v3)) = columns d"
    "rows (df (check_categorical_values v3)) = spec_before_outliers pd d qi"
    by (simp_all add: check_categorical_rows q spec_before_outliers_def)
  from check_price_outliers_rows[OF s(3)] obtain pi Q1 Q3 where
    p: "col_index (columns d) ''market_price'' = Some pi"
       "quantile pd (map (\<lambda>r. r ! pi) (spec_before_outliers pd d qi)) (1 / 4) = Inr Q1"
       "quantile pd (map (\<lambda>r. r ! pi) (spec_before_outliers pd d qi)) (3 / 4) = Inr Q3"
       "rows (df v5) = filter (\<lambda>r. \<not> spec_price_outlier Q1 Q3 (cell_value (r ! pi)))
                         (spec_before_outliers pd d qi)"
       "columns (df v5) = columns d"
    by (auto simp: c)
  have "df v' = df v5" using check_distribution_names[OF s(4)] by simp
  then show ?thesis using q(1) p by auto
qed


lemma col_index_inj:
  "col_index cs c1 = Some i \<Longrightarrow> col_index cs c2 = Some i \<Longrightarrow> c1 = c2"
  using col_index_Some[of cs c1 i] col_index_Some[of cs c2 i] by simp

lemma imputed_row_length [simp]: "length (spec_imputed_row pd d r) = length r"
  by (simp add: spec_imputed_row_def)

lemma imputed_row_nth:
  "k < length r \<Longrightarrow> spec_imputed_row pd d r ! k = spec_fill_cell pd d k (r ! k)"
  by (simp add: spec_imputed_row_def nth_enumerate_eq)

lemma imputed_unknown:
  assumes "wf_frame d" "r \<in> set (rows d)" "col_index (columns d) col = Some i"
    and "col = ''weather'' \<or> col = ''market_demand'' \<or> col = ''season''"
    and "isnull (r ! i)"
  shows "spec_imputed_row pd d r ! i = Str ''Unknown''"
proof -
  have i: "i < length (columns d)" "columns d ! i = col"
    using col_index_Some[OF assms(3)] by simp_all
  have "i < length r" using wf_frame_rows[OF assms(1,2)] i by simp
  then show ?thesis
    using assms(4,5) i by (auto simp: imputed_row_nth spec_fill_cell_def spec_fill_value_def)
qed

lemma unknown_not_in_vocabulary:
  assumes "col_index cols col = Some i" "col = ''season'' \<or> col = ''market_demand''"
    and "r ! i = Str ''Unknown''"
  shows "\<not> spec_row_in_vocabulary cols r"
  using assms
  by (auto simp: spec_row_in_vocabulary_def spec_checked_columns_def spec_vocabulary_def)

lemma vocabulary_ignores_weather:
  assumes "col_index cols ''weather'' = Some w"
  shows "spec_row_in_vocabulary cols (r[w := x]) = spec_row_in_vocabulary cols r"
proof -
  have "(case col_index cols col of None \<Rightarrow> True
          | Some i \<Rightarrow> isin (r[w := x] ! i) (spec_vocabulary col))
      = (case col_index cols col of None \<Rightarrow> True
          | Some i \<Rightarrow> isin (r ! i) (spec_vocabulary col))"
    if col: "col \<in> set spec_checked_columns" for col
  proof (cases "col_index cols col")
    case None
    then show ?thesis by simp
  next
    case (Some i)
    have "col \<noteq> ''weather''" using col by (auto simp: spec_checked_columns_def)
    then have "i \<noteq> w" using col_index_inj[of cols col i "''weather''"] Some assms by auto
    then show ?thesis by (simp add: Some)
  qed
  then show ?thesis
    by (simp add: spec_row_in_vocabulary_def list_all_iff)
qed

lemma imputed_weather_only:
  assumes "wf_frame d" "r \<in> set (rows d)" "col_index (columns d) ''weather'' = Some w"
    and "isnull (r ! w)" "\<forall>k < length r. k \<noteq> w \<longrightarrow> \<not> isnull (r ! k)"
  shows "spec_imputed_row pd d r = r[w := Str ''Unknown'']"
proof (rule nth_equalityI)
  show "length (spec_imputed_row pd d r) = length (r[w := Str ''Unknown''])" by simp
next
  fix k assume "k < length (spec_imputed_row pd d r)"
  then have k: "k < length r" by simp
  show "spec_imputed_row pd d r ! k = r[w := Str ''Unknown''] ! k"
  proof (cases "k = w")
    case True
    then show ?thesis
      using imputed_unknown[OF assms(1,2,3) _ assms(4), of pd] k by simp
  next
    case False
    then show ?thesis using assms(5) k by (simp add: imputed_row_nth spec_fill_cell_def)
  qed
qed

lemma first_occurrences_snoc:
  "first_occurrences seen (xs @ [x]) =
     first_occurrences seen xs @ (if x \<in> set seen \<union> set xs then [] else [x])"
  by (induction xs arbitrary: seen) auto

lemma first_occurrences_positions:
  "first_occurrences [] xs =
     map (\<lambda>j. xs ! j) (filter (\<lambda>j. xs ! j \<notin> set (take j xs)) [0..<length xs])"
proof (induction xs rule: rev_induct)
  case Nil
  then show ?case by simp
next
  case (snoc x xs)
  have f: "filter (\<lambda>j. (xs @ [x]) ! j \<notin> set (take j (xs @ [x]))) [0..<length xs]
         = filter (\<lambda>j. xs ! j \<notin> set (take j xs)) [0..<length xs]"
    by (rule filter_cong) (auto simp: nth_append)
  have m: "map (\<lambda>j. (xs @ [x]) ! j) (filter (\<lambda>j. xs ! j \<notin> set (take j xs)) [0..<length xs])
         = map (\<lambda>j. xs ! j) (filter (\<lambda>j. xs ! j \<notin> set (take j xs)) [0..<length xs])"
    by (rule map_cong) (auto simp: nth_append)
  define F where "F = (\<lambda>j. (xs @ [x]) ! j)"
  define P where "P = (\<lambda>j. (xs @ [x]) ! j \<notin> set (take j (xs @ [x])))"
  have last: "map F (filter P [length xs]) = (if x \<in> set xs then [] else [x])"
    by (simp add: F_def P_def)
  have "[0..<length (xs @ [x])] = [0..<length xs] @ [length xs]" by simp
  then have "map F (filter P [0..<length (xs @ [x])])
               = map F (filter P [0..<length xs]) @ map F (filter P [length xs])"
    by (simp only: filter_append map_append)
  also have "map F (filter P [0..<length xs])
               = map (\<lambda>j. xs ! j) (filter (\<lambda>j. xs ! j \<notin> set (take j xs)) [0..<length xs])"
    unfolding F_def P_def by (simp only: f m)
  finally have "map (\<lambda>j. (xs @ [x]) ! j)
          (filter (\<lambda>j. (xs @ [x]) ! j \<notin> set (take j (xs @ [x]))) [0..<length (xs @ [x])])
        = map (\<lambda>j. xs ! j) (filter (\<lambda>j. xs ! j \<notin> set (take j xs)) [0..<length xs])
          @ (if x \<in> set xs then [] else [x])"
    unfolding last by (simp only: F_def P_def)
  then show ?case by (simp only: first_occurrences_snoc snoc.IH) simp
qed

lemma pipeline_positions:
  assumes "wf_frame d" and "fst (validate pd (Some d)) = Some v'"
  shows "\<exists>qi pi Q1 Q3.
           col_index (columns d) ''quantity_kg'' = Some qi
         \<and> col_index (columns d) ''market_price'' = Some pi
         \<and> quantile pd (map (\<lambda>r. r ! pi) (spec_before_outliers pd d qi)) (1 / 4) = Inr Q1
         \<and> quantile pd (map (\<lambda>r. r ! pi) (spec_before_outliers pd d qi)) (3 / 4) = Inr Q3
         \<and> rows (df v') =
             filter (\<lambda>r. \<not> spec_price_outlier Q1 Q3 (cell_value (r ! pi)))
               (spec_before_outliers pd d qi)
         \<and> rows (df v') =
             map (\<lambda>j. spec_imputed pd d ! j) (spec_kept_positions pd d qi pi Q1 Q3)"
proof -
  from pipeline_rows[OF assms] obtain qi pi Q1 Q3 where
    p: "col_index (columns d) ''quantity_kg'' = Some qi"
       "col_index (columns d) ''market_price'' = Some pi"
       "quantile pd (map (\<lambda>r. r ! pi) (spec_before_outliers pd d qi)) (1 / 4) = Inr Q1"
       "quantile pd (map (\<lambda>r. r ! pi) (spec_before_outliers pd d qi)) (3 / 4) = Inr Q3"
       "rows (df v') = filter (\<lambda>r. \<not> spec_price_outlier Q1 Q3 (cell_value (r ! pi)))
                         (spec_before_outliers pd d qi)"
    by blast
  have len: "length (spec_imputed pd d) = length (rows d)" by (simp add: spec_imputed_def)
  define imp where "imp = spec_imputed pd d"
  have fm: "filter P (map (\<lambda>j. imp ! j) js) = map (\<lambda>j. imp ! j) (filter (\<lambda>j. P (imp ! j)) js)"
    for P js by (simp add: filter_map comp_def)
  have "rows (df v') =
          filter (\<lambda>r. \<not> spec_price_outlier Q1 Q3 (cell_value (r ! pi)))
            (filter (spec_row_in_vocabulary (columns d))
               (filter (\<lambda>r. \<not> spec_quantity_rejected (cell_value (r ! qi)))
                  (map (\<lambda>j. imp ! j)
                     (filter (\<lambda>j. imp ! j \<notin> set (take j imp)) [0..<length imp]))))"
    unfolding p(5) spec_before_outliers_def imp_def
    by (subst first_occurrences_positions) simp
  also have "\<dots> = map (\<lambda>j. imp ! j)
      (filter (\<lambda>j. \<not> spec_price_outlier Q1 Q3 (cell_value (imp ! j ! pi)))
         (filter (\<lambda>j. spec_row_in_vocabulary (columns d) (imp ! j))
            (filter (\<lambda>j. \<not> spec_quantity_rejected (cell_value (imp ! j ! qi)))
               (filter (\<lambda>j. imp ! j \<notin> set (take j imp)) [0..<length imp]))))"
    by (simp only: fm)
  also have "\<dots> = map (\<lambda>j. imp ! j) (filter (spec_row_survives pd d qi pi Q1 Q3)
                       [0..<length (rows d)])"
    unfolding filter_filter len[folded imp_def]
    by (rule arg_cong[where f = "map (\<lambda>j. imp ! j)"], rule filter_cong)
      (auto simp: spec_row_survives_def imp_def)
  finally have "rows (df v') =
          map (\<lambda>j. spec_imputed pd d ! j) (spec_kept_positions pd d qi pi Q1 Q3)"
    by (simp add: spec_kept_positions_def imp_def)
  then show ?thesis using p by blast
qed

text \<open>
  Claim C10, as amended. When \<open>validate\<close> writes the cleaned frame of a frame as
  \<open>read_csv\<close> gives it, the rows written are the imputed rows at the surviving
  positions, in their order. A row whose season or market_demand is missing gets the
  value Unknown there in the missing-value step; Unknown is in neither vocabulary, so
  the row does not survive, and no row equal to its imputed form is in the result. A
  row whose only missing value is weather becomes the row with weather Unknown, which
  no vocabulary check looks at; it survives exactly when no equal row stands before it
  after the imputation (the duplicate check keeps first occurrences only), its quantity
  is in range, its categorical values are in their vocabularies and its price is no
  outlier for the quartiles Q1 and Q3 of the rows the outlier check sees.
\<close>

theorem unknown_season_removed_weather_kept:
  assumes "wf_frame d" and "fst (validate pd (Some d)) = Some v'"
  shows "(\<forall>r \<in> set (rows d). \<forall>col \<in> set [''season'', ''market_demand'']. \<forall>i.
            col_index (columns d) col = Some i \<and> isnull (r ! i) \<longrightarrow>
              spec_imputed_row pd d r ! i = Str ''Unknown''
              \<and> spec_imputed_row pd d r \<notin> set (rows (df v')))
       \<and> (\<exists>qi pi Q1 Q3.
             col_index (columns d) ''quantity_kg'' = Some qi
           \<and> col_index (columns d) ''market_price'' = Some pi
           \<and> quantile pd (map (\<lambda>r. r ! pi) (spec_before_outliers pd d qi)) (1 / 4) = Inr Q1
           \<and> quantile pd (map (\<lambda>r. r ! pi) (spec_before_outliers pd d qi)) (3 / 4) = Inr Q3
           \<and> (\<forall>r \<in> set (rows d). \<forall>w.
                 col_index (columns d) ''weather'' = Some w \<and> isnull (r ! w)
                 \<and> (\<forall>k < length r. k \<noteq> w \<longrightarrow> \<not> isnull (r ! k)) \<longrightarrow>
                   spec_imputed_row pd d r = r[w := Str ''Unknown'']
                   \<and> (r[w := Str ''Unknown''] \<in> set (rows (df v')) \<longleftrightarrow>
                        \<not> spec_quantity_rejected (cell_value (r ! qi))
                        \<and> spec_row_in_vocabulary (columns d) r
                        \<and> \<not> spec_price_outlier Q1 Q3 (cell_value (r ! pi))))
           \<and> rows (df v') =
               map (\<lambda>j. spec_imputed pd d ! j) (spec_kept_positions pd d qi pi Q1 Q3)
           \<and> (\<forall>j < length (rows d). \<forall>col \<in> set [''season'', ''market_demand'']. \<forall>i.
                 col_index (columns d) col = Some i \<and> isnull (rows d ! j ! i) \<longrightarrow>
                   j \<notin> set (spec_kept_positions pd d qi pi Q1 Q3))
           \<and> (\<forall>j < length (rows d). \<forall>w.
                 col_index (columns d) ''weather'' = Some w \<and> isnull (rows d ! j ! w)
                 \<and> (\<forall>k < length (rows d ! j). k \<noteq> w \<longrightarrow> \<not> isnull (rows d ! j ! k)) \<longrightarrow>
                   spec_imputed pd d ! j = (rows d ! j)[w := Str ''Unknown'']
                   \<and> (j \<in> set (spec_kept_positions pd d qi pi Q1 Q3) \<longleftrightarrow>
                        (rows d ! j)[w := Str ''Unknown''] \<notin> set (take j (spec_imputed pd d))
                        \<and> \<not> spec_quantity_rejected (cell_value (rows d ! j ! qi))
                        \<and> spec_row_in_vocabulary (columns d) (rows d ! j)
                        \<and> \<not> spec_price_outlier Q1 Q3 (cell_value (rows d ! j ! pi)))))"
proof -
  from pipeline_positions[OF assms] obtain qi pi Q1 Q3 where
    p: "col_index (columns d) ''quantity_kg'' = Some qi"
       "col_index (columns d) ''market_price'' = Some pi"
       "quantile pd (map (\<lambda>r. r ! pi) (spec_before_outliers pd d qi)) (1 / 4) = Inr Q1"
       "quantile pd (map (\<lambda>r. r ! pi) (spec_before_outliers pd d qi)) (3 / 4) = Inr Q3"
       "rows (df v') = filter (\<lambda>r. \<not> spec_price_outlier Q1 Q3 (cell_value (r ! pi)))
                         (spec_before_outliers pd d qi)"
       "rows (df v') =
          map (\<lambda>j. spec_imputed pd d ! j) (spec_kept_positions pd d qi pi Q1 Q3)"
    by blast
  have mem: "x \<in> set (rows (df v')) \<longleftrightarrow>
               x \<in> set (spec_imputed pd d) \<and> \<not> spec_quantity_rejected (cell_value (x ! qi))
               \<and> spec_row_in_vocabulary (columns d) x
               \<and> \<not> spec_price_outlier Q1 Q3 (cell_value (x ! pi))" for x
    by (auto simp: p(5) spec_before_outliers_def set_first_occurrences)
  have nth_imp: "spec_imputed pd d ! j = spec_imputed_row pd d (rows d ! j)"
    if "j < length (rows d)" for j
    using that by (simp add: spec_imputed_def)
  have kept: "j \<in> set (spec_kept_positions pd d qi pi Q1 Q3) \<longleftrightarrow>
                spec_row_survives pd d qi pi Q1 Q3 j"
    if "j < length (rows d)" for j
    using that by (simp add: spec_kept_positions_def)
  have season: "spec_imputed_row pd d r ! i = Str ''Unknown''
                  \<and> spec_imputed_row pd d r \<notin> set (rows (df v'))
                  \<and> \<not> spec_row_in_vocabulary (columns d) (spec_imputed_row pd d r)"
    if "r \<in> set (rows d)" "col = ''season'' \<or> col = ''market_demand''"
      "col_index (columns d) col = Some i" "isnull (r ! i)" for r col i
  proof -
    have u: "spec_imputed_row pd d r ! i = Str ''Unknown''"
      using assms(1) that(1,3) _ that(4) by (rule imputed_unknown) (use that(2) in auto)
    have "\<not> spec_row_in_vocabulary (columns d) (spec_imputed_row pd d r)"
      using that(3,2) u by (rule unknown_not_in_vocabulary)
    then show ?thesis using u mem by simp
  qed
  have season_pos: "j \<notin> set (spec_kept_positions pd d qi pi Q1 Q3)"
    if "j < length (rows d)" "col = ''season'' \<or> col = ''market_demand''"
      "col_index (columns d) col = Some i" "isnull (rows d ! j ! i)" for j col i
  proof -
    have "rows d ! j \<in> set (rows d)" using that(1) by simp
    from season[OF this that(2,3,4)]
    have "\<not> spec_row_in_vocabulary (columns d) (spec_imputed pd d ! j)"
      by (simp add: nth_imp[OF that(1)])
    then show ?thesis by (simp add: kept[OF that(1)] spec_row_survives_def)
  qed
  have weather: "spec_imputed_row pd d r = r[w := Str ''Unknown'']
                   \<and> (r[w := Str ''Unknown''] \<in> set (rows (df v')) \<longleftrightarrow>
                        \<not> spec_quantity_rejected (cell_value (r ! qi))
                        \<and> spec_row_in_vocabulary (columns d) r
                        \<and> \<not> spec_price_outlier Q1 Q3 (cell_value (r ! pi)))
                   \<and> r[w := Str ''Unknown''] ! qi = r ! qi
                   \<and> r[w := Str ''Unknown''] ! pi = r ! pi"
    if "r \<in> set (rows d)" "col_index (columns d) ''weather'' = Some w" "isnull (r ! w)"
      "\<forall>k < length r. k \<noteq> w \<longrightarrow> \<not> isnull (r ! k)" for r w
  proof -
    have e: "spec_imputed_row pd d r = r[w := Str ''Unknown'']"
      using assms(1) that by (rule imputed_weather_only)
    then have "r[w := Str ''Unknown''] \<in> set (spec_imputed pd d)"
      using that(1) by (auto simp: spec_imputed_def image_iff intro!: bexI[of _ r])
    moreover have "qi \<noteq> w"
      using col_index_inj[of "columns d" "''quantity_kg''" qi "''weather''"] p(1) that(2) by auto
    moreover have "pi \<noteq> w"
      using col_index_inj[of "columns d" "''market_price''" pi "''weather''"] p(2) that(2) by auto
    ultimately show ?thesis
      using e mem[of "r[w := Str ''Unknown'']"] vocabulary_ignores_weather[OF that(2)]
      by simp
  qed
  have weather_pos: "spec_imputed pd d ! j = (rows d ! j)[w := Str ''Unknown'']
                   \<and> (j \<in> set (spec_kept_positions pd d qi pi Q1 Q3) \<longleftrightarrow>
                        (rows d ! j)[w := Str ''Unknown''] \<notin> set (take j (spec_imputed pd d))
                        \<and> \<not> spec_quantity_rejected (cell_value (rows d ! j ! qi))
                        \<and> spec_row_in_vocabulary (columns d) (rows d ! j)
                        \<and> \<not> spec_price_outlier Q1 Q3 (cell_value (rows d ! j ! pi)))"
    if "j < length (rows d)" "col_index (columns d) ''weather'' = Some w"
      "isnull (rows d ! j ! w)"
      "\<forall>k < length (rows d ! j). k \<noteq> w \<longrightarrow> \<not> isnull (rows d ! j ! k)" for j w
  proof -
    have "rows d ! j \<in> set (rows d)" using that(1) by simp
    from weather[OF this that(2,3,4)] show ?thesis
      by (simp add: kept[OF that(1)] spec_row_survives_def nth_imp[OF that(1)]
          vocabulary_ignores_weather[OF that(2)])
  qed
  show ?thesis
    using p(1-4,6) season weather season_pos weather_pos
    by (intro conjI exI[of _ qi] exI[of _ pi] exI[of _ Q1] exI[of _ Q3]) auto
qed

lemma unknown_frame_code:
  "validate pandas_model (Some unknown_frame) = (Some unknown_frame_cleaned, Inr True)"
  by code_simp

lemma weather_frame_code:
  "validate pandas_model (Some weather_frame) = (Some weather_frame_cleaned, Inr True)"
  by code_simp

theorem unknown_season_removed_weather_kept_witness:
  "fst (validate pandas_model (Some unknown_frame)) = Some unknown_frame_cleaned
   \<and> rice_row \<in> set (rows unknown_frame)
   \<and> spec_imputed_row pandas_model unknown_frame rice_row ! 5 = Str ''Unknown''
   \<and> spec_imputed_row pandas_model unknown_frame rice_row
        \<notin> set (rows (df unknown_frame_cleaned))
   \<and> [Str ''2024-04-07'', Str ''Corn'', Str ''North'', Str ''Grade_B'', Num (Fin 100),
       Str ''Spring'', Str ''Unknown'', Num (Fin 12)] \<in> set (rows (df unknown_frame_cleaned))"
proof -
  have ev: "fst (validate pandas_model (Some unknown_frame)) = Some unknown_frame_cleaned"
    by (simp add: unknown_frame_code)
  have wf: "wf_frame unknown_frame"
    by (simp add: wf_frame_def unknown_frame_def)
  have r: "rice_row \<in> set (rows unknown_frame)" by (simp add: rice_row_def unknown_frame_def)
  have c: "col_index (columns unknown_frame) ''season'' = Some 5 \<and> isnull (rice_row ! 5)"
    by (simp add: unknown_frame_def rice_row_def isnull_def)
  have "\<forall>r \<in> set (rows unknown_frame). \<forall>col \<in> set [''season'', ''market_demand'']. \<forall>i.
            col_index (columns unknown_frame) col = Some i \<and> isnull (r ! i) \<longrightarrow>
              spec_imputed_row pandas_model unknown_frame r ! i = Str ''Unknown''
              \<and> spec_imputed_row pandas_model unknown_frame r
                   \<notin> set (rows (df unknown_frame_cleaned))"
    using unknown_season_removed_weather_kept[OF wf ev] by blast
  then have "spec_imputed_row pandas_model unknown_frame rice_row ! 5 = Str ''Unknown''
              \<and> spec_imputed_row pandas_model unknown_frame rice_row
                   \<notin> set (rows (df unknown_frame_cleaned))"
    using r c by auto
  moreover have "[Str ''2024-04-07'', Str ''Corn'', Str ''North'', Str ''Grade_B'', Num (Fin 100),
       Str ''Spring'', Str ''Unknown'', Num (Fin 12)] \<in> set (rows (df unknown_frame_cleaned))"
    by (simp add: unknown_frame_cleaned_def)
  ultimately show ?thesis using ev r by blast
qed

text \<open>
  In \<open>twin_frame\<close> the second and the third row are equal and miss only the weather:
  the duplicate check keeps the first of the two and drops the other.
\<close>

lemma twin_frame_code:
  "validate pandas_model (Some twin_frame) = (Some twin_frame_cleaned, Inr True)"
  by code_simp

lemma twin_row_kept_once:
  "rows twin_frame ! 1 = rows twin_frame ! 2
   \<and> fst (validate pandas_model (Some twin_frame)) = Some twin_frame_cleaned
   \<and> rows (df twin_frame_cleaned) =
       [[Str ''2024-01-05'', Str ''Wheat'', Str ''North'', Str ''Grade_A'', Num (Fin 100),
         Str ''Winter'', Str ''Sunny'', Num (Fin 10)],
        [Str ''2024-04-07'', Str ''Corn'', Str ''North'', Str ''Grade_B'', Num (Fin 100),
         Str ''Spring'', Str ''Unknown'', Num (Fin 12)]]"
  by (simp add: twin_frame_code) (simp add: twin_frame_def twin_frame_cleaned_def)

text \<open>
  The claim as it stands says that a row whose only missing value is weather is kept.
  In \<open>weather_frame\<close> the third row is such a row, and its quantity is 0: the quantity
  check drops it.
\<close>

theorem unknown_season_removed_weather_kept_counterexample:
  "rows weather_frame ! 2 =
     [Str ''2024-04-07'', Str ''Corn'', Str ''North'', Str ''Grade_B'', Num (Fin 0),
      Str ''Spring'', Num NaN, Num (Fin 12)]
   \<and> (\<exists>v'. fst (validate pandas_model (Some weather_frame)) = Some v'
          \<and> [Str ''2024-04-07'', Str ''Corn'', Str ''North'', Str ''Grade_B'', Num (Fin 0),
              Str ''Spring'', Str ''Unknown'', Num (Fin 12)] \<notin> set (rows (df v'))
          \<and> map (\<lambda>r. r ! 1) (rows (df v')) = [Str ''Wheat'', Str ''Rice''])"
  by (simp add: weather_frame_code) (simp add: weather_frame_def weather_frame_cleaned_def)

end
